theory Spec2Isabelle
  imports Complex_Main
begin

section \<open>Data model\<close>

text \<open>
  The script \<^verbatim>\<open>examples/nanoChatGPT/train.py\<close> is a linear procedure around calls into
  a deep-learning framework. The embedding keeps the Python control flow of
  \<^verbatim>\<open>init_scaler\<close>, \<^verbatim>\<open>compute_rouge\<close>, \<^verbatim>\<open>estimate_loss\<close> and \<^verbatim>\<open>main\<close> and takes
  every framework function as a field of an environment record. Python floats and
  tensors of floats are real numbers here (no rounding, no NaN), Python integers
  are \<open>int\<close>, and every exception the script's own statements can raise is a
  value of \<open>error\<close>, returned together with the state reached when it was raised.
\<close>

datatype error =
    ZeroDivisionError
  | RuntimeError
  | UnboundLocalError
  | AttributeError
  | IndexError
  | KeyError
  | TypeError
  | ValueError

text \<open>The keys of \<^verbatim>\<open>config\<close> that the script reads. The two keys that
  \<^verbatim>\<open>config.setdefault\<close> may add are optional.\<close>

record config =
  dtype :: string
  eval_iters :: int
  learning_rate :: real
  weight_decay :: real
  beta1 :: real
  beta2 :: real
  max_iters :: int
  gradient_accumulation_steps :: int
  grad_clip :: real
  eval_interval :: int
  log_interval :: int
  always_save_checkpoint :: bool
  out_dir :: string
  cfg_iter_num :: "int option"
  cfg_best_val_loss :: "real option"

text \<open>A batch is an object on the heap. \<^verbatim>\<open>compute_rouge\<close> reads
  \<^verbatim>\<open>batch_td.transformer_data.labels\<close> and \<^verbatim>\<open>.logits\<close>; the loops read
  \<^verbatim>\<open>batch.loss\<close>.\<close>

record transformer_data =
  input_ids :: "nat list list"
  labels :: "nat list list"
  logits :: "real list list list option"

record batch =
  transformer_data :: transformer_data
  loss :: "real option"

type_synonym addr = nat

datatype split = Train | Val

text \<open>The dictionary saved as \<^verbatim>\<open>ckpt_status.pt\<close>: an association list from keys to
  values of four kinds. The optimizer's \<^verbatim>\<open>state_dict()\<close> is the learning rates of its
  parameter groups and the framework's opaque state at the time of the call.\<close>

datatype 'm ckpt_value =
    OptimizerState "real list" 'm
  | IntValue int
  | FloatValue real
  | ConfigValue config

type_synonym 'm checkpoint = "(string \<times> 'm ckpt_value) list"

text \<open>The calls the script makes. \<open>Forward a t g l\<close> is \<^verbatim>\<open>model(batch)\<close> on the batch
  object \<open>a\<close>, with the model's training flag \<open>t\<close> and the gradient mode \<open>g\<close> at
  the call and the loss \<open>l\<close> it wrote; \<open>ScalerScale l\<close> is \<^verbatim>\<open>scaler.scale\<close> on the loss
  \<open>l\<close>; \<open>ScalerStep lrs\<close> is \<^verbatim>\<open>scaler.step(optimizer)\<close> with the learning rates of the
  parameter groups at the call; \<open>IterBegin it\<close> marks the head of the loop.\<close>

datatype 'm event =
    LoadConfig
  | Setup
  | InitTransformer
  | InitScaler bool
  | AdamW real
  | CreateLrScheduler
  | CreateLossEstimator
  | GetPromptDataloaders
  | NextBatch split addr
  | EstimateLoss split bool
  | IterBegin int
  | SetLr real
  | Forward addr bool bool real
  | ScalerScale real
  | Backward real
  | ScalerUnscale
  | ClipGradNorm real
  | ScalerStep "real list"
  | OptimizerStep "real list"
  | ScalerUpdate
  | ZeroGrad
  | ModelEval
  | ModelTrain
  | PrintEval int real real
  | PrintEvalRouge int real real real real
  | PrintLog int real
  | PrintSaving string
  | SavePretrained string 'm
  | TorchSave "'m checkpoint" string
  | Subplots
  | Title string
  | Plot "int list" "real list" string
  | Legend
  | SaveFig string

text \<open>The state of a run: the framework's objects as far as the script sees them
  (the opaque rest is \<open>params\<close>: weights, gradients, optimizer moments, the scaler's
  scale), the heap of batches, the positions of the two loaders, the local variables
  of \<^verbatim>\<open>main\<close>, and the log of calls made so far.\<close>

record 'm state =
  params :: 'm
  model_training :: bool
  grad_enabled :: bool
  optimizer_lrs :: "real list"
  scaler_enabled :: bool
  heap :: "addr \<Rightarrow> batch"
  train_pos :: nat
  val_pos :: nat
  best_val_loss :: real
  train_losses :: "real list"
  val_losses :: "real list"
  train_rouges :: "real list"
  val_rouges :: "real list"
  next_batch :: addr
  batch_var :: "addr option"
  trace :: "'m event list"

text \<open>The framework and the modules of the repository that are not part of the
  script. \<open>e_forward\<close> is the forward pass of the model: from the opaque state, the
  training flag, the gradient mode and the batch it gives the new opaque state, the
  logits, the loss and the value the call returns. The loaders are the iterators of
  \<^verbatim>\<open>get_prompt_dataloaders\<close>, taken as inexhaustible: a function from the position
  to the batch object handed out. The \<open>e_scaler_\<close> functions are what an enabled
  \<^verbatim>\<open>GradScaler\<close> does.\<close>

record ('m, 'r) env =
  e_config :: config
  e_init_params :: 'm
  e_init_training :: bool
  e_heap :: "addr \<Rightarrow> batch"
  e_train_items :: "nat \<Rightarrow> addr"
  e_val_items :: "nat \<Rightarrow> addr"
  e_lr_scheduler :: "int \<Rightarrow> real"
  e_forward :: "'m \<Rightarrow> bool \<Rightarrow> bool \<Rightarrow> batch \<Rightarrow> 'm \<times> real list list list \<times> real \<times> 'r"
  e_backward :: "real \<Rightarrow> 'm \<Rightarrow> 'm"
  e_clip_grad_norm :: "real \<Rightarrow> 'm \<Rightarrow> 'm"
  e_optimizer_step :: "real list \<Rightarrow> 'm \<Rightarrow> 'm"
  e_zero_grad :: "'m \<Rightarrow> 'm"
  e_scaler_scale :: "'m \<Rightarrow> real \<Rightarrow> real"
  e_scaler_unscale :: "'m \<Rightarrow> 'm"
  e_scaler_step :: "real list \<Rightarrow> 'm \<Rightarrow> 'm"
  e_scaler_update :: "'m \<Rightarrow> 'm"
  e_mean :: "real list \<Rightarrow> real"
  e_argmax :: "real list list list \<Rightarrow> nat list list"
  e_batch_decode :: "nat list list \<Rightarrow> string list"
  e_rouge_compute :: "string list \<Rightarrow> string list \<Rightarrow> (string \<times> real) list"

section \<open>Statements, exceptions and loops\<close>

type_synonym ('m, 'a) outcome = "(error \<times> 'm state) + 'a"

definition seq :: "'e + 'a \<Rightarrow> ('a \<Rightarrow> 'e + 'b) \<Rightarrow> 'e + 'b" where
  "seq r f = (case r of Inl e \<Rightarrow> Inl e | Inr a \<Rightarrow> f a)"

definition log_event :: "'m event \<Rightarrow> 'm state \<Rightarrow> 'm state" where
  "log_event ev s = s\<lparr>trace := trace s @ [ev]\<rparr>"

text \<open>\<^verbatim>\<open>for x in xs: body\<close>, stopping at the first exception.\<close>

fun for_each :: "'a list \<Rightarrow> ('a \<Rightarrow> 's \<Rightarrow> 'e + 's) \<Rightarrow> 's \<Rightarrow> 'e + 's" where
  "for_each [] body s = Inr s"
| "for_each (x # xs) body s = seq (body x s) (for_each xs body)"

text \<open>\<^verbatim>\<open>range(a, b)\<close>: the integers from \<open>a\<close> up to \<open>b - 1\<close>, none when \<open>b \<le> a\<close>.\<close>

definition py_range :: "int \<Rightarrow> int \<Rightarrow> int list" where
  "py_range a b = map (\<lambda>k. a + int k) [0 ..< nat (b - a)]"

text \<open>The state a computation stops in, whether it returned or raised.\<close>

definition final :: "(error \<times> 'm state) + 'm state \<Rightarrow> 'm state" where
  "final r = (case r of Inl (e, s) \<Rightarrow> s | Inr s \<Rightarrow> s)"

section \<open>The framework's objects\<close>

text \<open>\<^verbatim>\<open>init_scaler\<close>: the flag that \<^verbatim>\<open>GradScaler\<close> is constructed with.\<close>

definition init_scaler :: "config \<Rightarrow> bool" where
  "init_scaler config = (dtype config = ''float16'')"

text \<open>Modelled from the spec: the four methods of the framework's \<^verbatim>\<open>GradScaler\<close> that
  the loop calls (the class is not part of the repository). As the comment in
  \<^verbatim>\<open>init_scaler\<close> says (\<^verbatim>\<open>If enabled=False scaler is a no-op\<close>), a disabled scaler
  returns the loss it is given, does nothing in \<^verbatim>\<open>unscale_\<close> and \<^verbatim>\<open>update\<close>, and its
  \<^verbatim>\<open>step\<close> is \<^verbatim>\<open>optimizer.step()\<close>; what an enabled scaler does is left to the
  environment.\<close>

definition scaler_scale :: "('m, 'r) env \<Rightarrow> real \<Rightarrow> 'm state \<Rightarrow> real \<times> 'm state" where
  "scaler_scale env l s =
     (let s1 = log_event (ScalerScale l) s in
      if scaler_enabled s then (e_scaler_scale env (params s) l, s1) else (l, s1))"

definition backward :: "('m, 'r) env \<Rightarrow> real \<Rightarrow> 'm state \<Rightarrow> 'm state" where
  "backward env l s = log_event (Backward l) (s\<lparr>params := e_backward env l (params s)\<rparr>)"

definition scaler_unscale :: "('m, 'r) env \<Rightarrow> 'm state \<Rightarrow> 'm state" where
  "scaler_unscale env s =
     (let s1 = log_event ScalerUnscale s in
      if scaler_enabled s then s1\<lparr>params := e_scaler_unscale env (params s1)\<rparr> else s1)"

definition clip_grad_norm :: "('m, 'r) env \<Rightarrow> real \<Rightarrow> 'm state \<Rightarrow> 'm state" where
  "clip_grad_norm env c s =
     log_event (ClipGradNorm c) (s\<lparr>params := e_clip_grad_norm env c (params s)\<rparr>)"

definition optimizer_step :: "('m, 'r) env \<Rightarrow> 'm state \<Rightarrow> 'm state" where
  "optimizer_step env s =
     log_event (OptimizerStep (optimizer_lrs s))
       (s\<lparr>params := e_optimizer_step env (optimizer_lrs s) (params s)\<rparr>)"

definition scaler_step :: "('m, 'r) env \<Rightarrow> 'm state \<Rightarrow> 'm state" where
  "scaler_step env s =
     (let s1 = log_event (ScalerStep (optimizer_lrs s)) s in
      if scaler_enabled s then s1\<lparr>params := e_scaler_step env (optimizer_lrs s1) (params s1)\<rparr>
      else optimizer_step env s1)"

definition scaler_update :: "('m, 'r) env \<Rightarrow> 'm state \<Rightarrow> 'm state" where
  "scaler_update env s =
     (let s1 = log_event ScalerUpdate s in
      if scaler_enabled s then s1\<lparr>params := e_scaler_update env (params s1)\<rparr> else s1)"

definition zero_grad :: "('m, 'r) env \<Rightarrow> 'm state \<Rightarrow> 'm state" where
  "zero_grad env s = log_event ZeroGrad (s\<lparr>params := e_zero_grad env (params s)\<rparr>)"

text \<open>\<^verbatim>\<open>model(batch)\<close>. Modelled from the spec: the forward call of the transformer
  (module \<^verbatim>\<open>models.transformer\<close>, absent) mutates the batch in place, writing its logits
  and its loss. The result is the value the call returns and the new state.\<close>

definition write_batch :: "real list list list \<Rightarrow> real \<Rightarrow> batch \<Rightarrow> batch" where
  "write_batch lg l b =
     b\<lparr>transformer_data := (transformer_data b)\<lparr>logits := Some lg\<rparr>, loss := Some l\<rparr>"

definition model_call :: "('m, 'r) env \<Rightarrow> addr \<Rightarrow> 'm state \<Rightarrow> 'r \<times> 'm state" where
  "model_call env a s =
     (case e_forward env (params s) (model_training s) (grad_enabled s) (heap s a) of
        (m, lg, l, r) \<Rightarrow>
          (r, log_event (Forward a (model_training s) (grad_enabled s) l)
                (s\<lparr>params := m, heap := (heap s)(a := write_batch lg l (heap s a))\<rparr>)))"

text \<open>\<^verbatim>\<open>next(dataloader)\<close> on one of the two loaders.\<close>

definition next_item :: "('m, 'r) env \<Rightarrow> split \<Rightarrow> 'm state \<Rightarrow> addr \<times> 'm state" where
  "next_item env dataloader s =
     (case dataloader of
        Train \<Rightarrow> (let a = e_train_items env (train_pos s)
                  in (a, log_event (NextBatch Train a) (s\<lparr>train_pos := Suc (train_pos s)\<rparr>)))
      | Val \<Rightarrow> (let a = e_val_items env (val_pos s)
                in (a, log_event (NextBatch Val a) (s\<lparr>val_pos := Suc (val_pos s)\<rparr>))))"

text \<open>\<^verbatim>\<open>batch.loss\<close>: the loss field of the object, an exception when it is unset.\<close>

definition read_loss :: "addr \<Rightarrow> 'm state \<Rightarrow> ('m, real) outcome" where
  "read_loss a s = (case loss (heap s a) of None \<Rightarrow> Inl (AttributeError, s) | Some l \<Rightarrow> Inr l)"

text \<open>\<^verbatim>\<open>torch.zeros(n)\<close> raises for a negative size.\<close>

definition torch_zeros :: "int \<Rightarrow> 'm state \<Rightarrow> ('m, real list) outcome" where
  "torch_zeros n s = (if n < 0 then Inl (RuntimeError, s) else Inr (replicate (nat n) 0))"

text \<open>\<^verbatim>\<open>t[k] = v\<close> on a one-dimensional tensor.\<close>

definition tensor_set :: "real list \<Rightarrow> int \<Rightarrow> real \<Rightarrow> 'm state \<Rightarrow> ('m, real list) outcome" where
  "tensor_set t k v s =
     (let n = int (length t); j = (if k < 0 then n + k else k)
      in if 0 \<le> j \<and> j < n then Inr (t[nat j := v]) else Inl (IndexError, s))"

section \<open>compute_rouge and estimate_loss\<close>

definition compute_rouge ::
  "('m, 'r) env \<Rightarrow> addr \<Rightarrow> 'm state \<Rightarrow> ('m, (string \<times> real) list) outcome" where
  "compute_rouge env batch_td s =
     (let labels_ids = map (drop 1) (labels (transformer_data (heap s batch_td)))
      in case logits (transformer_data (heap s batch_td)) of
           None \<Rightarrow> Inl (AttributeError, s)
         | Some lg \<Rightarrow>
             (let pred_ids = map butlast (e_argmax env lg);
                  pred_str = e_batch_decode env pred_ids;
                  label_str = e_batch_decode env labels_ids;
                  result = e_rouge_compute env pred_str label_str
              in Inr result))"

text \<open>The decorator \<^verbatim>\<open>@torch.no_grad()\<close>: gradients are disabled during the call and the
  previous mode is restored when it returns or raises.\<close>

definition no_grad ::
  "('m state \<Rightarrow> ('m, 'a \<times> 'm state) outcome) \<Rightarrow> 'm state \<Rightarrow> ('m, 'a \<times> 'm state) outcome" where
  "no_grad f s =
     (let prev = grad_enabled s
      in case f (s\<lparr>grad_enabled := False\<rparr>) of
           Inl (e, s1) \<Rightarrow> Inl (e, s1\<lparr>grad_enabled := prev\<rparr>)
         | Inr (r, s1) \<Rightarrow> Inr (r, s1\<lparr>grad_enabled := prev\<rparr>))"

text \<open>The body of the loop \<^verbatim>\<open>for k in range(config["eval_iters"])\<close>; the loop's state is
  the two tensors and the state of the run.\<close>

definition estimate_body ::
  "('m, 'r) env \<Rightarrow> split \<Rightarrow> bool \<Rightarrow> int \<Rightarrow> real list \<times> real list \<times> 'm state
     \<Rightarrow> ('m, real list \<times> real list \<times> 'm state) outcome" where
  "estimate_body env dataloader return_rouge k st =
     (case st of (losses, rouge1, s0) \<Rightarrow>
       (case next_item env dataloader s0 of (batch, s1) \<Rightarrow>
         (let s2 = snd (model_call env batch s1)
          in seq (read_loss batch s2) (\<lambda>l.
             seq (tensor_set losses k l s2) (\<lambda>losses'.
               if return_rouge then
                 seq (compute_rouge env batch s2) (\<lambda>rouge.
                   (case map_of rouge ''rouge1'' of
                      None \<Rightarrow> Inl (KeyError, s2)
                    | Some v \<Rightarrow>
                        seq (tensor_set rouge1 k v s2) (\<lambda>rouge1'.
                          Inr (losses', rouge1', s2))))
               else Inr (losses', rouge1, s2))))))"

definition estimate_loss ::
  "('m, 'r) env \<Rightarrow> config \<Rightarrow> split \<Rightarrow> bool \<Rightarrow> 'm state
     \<Rightarrow> ('m, (real \<times> real option) \<times> 'm state) outcome" where
  "estimate_loss env config dataloader return_rouge =
     no_grad (\<lambda>s0.
       let s1 = log_event ModelEval
                  ((log_event (EstimateLoss dataloader return_rouge) s0)\<lparr>model_training := False\<rparr>)
       in seq (torch_zeros (eval_iters config) s1) (\<lambda>losses.
          seq (if return_rouge then torch_zeros (eval_iters config) s1 else Inr []) (\<lambda>rouge1.
          seq (for_each (py_range 0 (eval_iters config))
                 (estimate_body env dataloader return_rouge) (losses, rouge1, s1))
            (\<lambda>(losses', rouge1', s2).
               let s3 = log_event ModelTrain (s2\<lparr>model_training := True\<rparr>)
               in if return_rouge
                  then Inr ((e_mean env losses', Some (e_mean env rouge1')), s3)
                  else Inr ((e_mean env losses', None), s3)))))"

section \<open>The training loop\<close>

text \<open>Lines 102 to 104: the learning rate of the iteration, written into every
  parameter group.\<close>

definition set_lr :: "('m, 'r) env \<Rightarrow> int \<Rightarrow> 'm state \<Rightarrow> 'm state" where
  "set_lr env it s =
     (let lr = e_lr_scheduler env it
      in log_event (SetLr lr) (s\<lparr>optimizer_lrs := map (\<lambda>param_group. lr) (optimizer_lrs s)\<rparr>))"

text \<open>Lines 111 to 117: one pass of the gradient accumulation loop. The value that
  \<^verbatim>\<open>model(batch)\<close> returns is dropped; the loss is read from the batch object.\<close>

definition accumulate_pass :: "('m, 'r) env \<Rightarrow> 'm state \<Rightarrow> ('m, 'm state) outcome" where
  "accumulate_pass env s =
     (let batch = next_batch s;
          s1 = s\<lparr>batch_var := Some batch\<rparr>;
          s2 = snd (model_call env batch s1)
      in case next_item env Train s2 of (nb, s3) \<Rightarrow>
           (let s4 = s3\<lparr>next_batch := nb\<rparr>
            in seq (read_loss batch s4) (\<lambda>l.
                 case scaler_scale env l s4 of (scaled, s5) \<Rightarrow> Inr (backward env scaled s5))))"

text \<open>Lines 119 to 126: the clipping, the step of the optimizer through the scaler, and
  the flush of the gradients.\<close>

definition clip_and_step :: "('m, 'r) env \<Rightarrow> config \<Rightarrow> 'm state \<Rightarrow> 'm state" where
  "clip_and_step env config s1 =
     (let s2 = (if grad_clip config \<noteq> 0
                then clip_grad_norm env (grad_clip config) (scaler_unscale env s1)
                else s1);
          s3 = scaler_step env s2;
          s4 = scaler_update env s3
      in zero_grad env s4)"

text \<open>Lines 110 to 126: the accumulation loop, then the update.\<close>

definition train_step :: "('m, 'r) env \<Rightarrow> config \<Rightarrow> 'm state \<Rightarrow> ('m, 'm state) outcome" where
  "train_step env config s =
     seq (for_each (py_range 0 (gradient_accumulation_steps config))
            (\<lambda>_. accumulate_pass env) s) (\<lambda>s1. Inr (clip_and_step env config s1))"

text \<open>\<^verbatim>\<open>os.path.join(a, b)\<close> for a relative \<open>b\<close>.\<close>

definition os_path_join :: "string \<Rightarrow> string \<Rightarrow> string" where
  "os_path_join a b =
     (if a = [] then b else if last a = CHR ''/'' then a @ b else a @ ''/'' @ b)"

text \<open>Lines 136 to 143 (under \<^verbatim>\<open>if False\<close>) and lines 145 to 149.\<close>

definition evaluate_with_rouge ::
  "('m, 'r) env \<Rightarrow> config \<Rightarrow> int \<Rightarrow> 'm state \<Rightarrow> ('m, (real \<times> real) \<times> 'm state) outcome" where
  "evaluate_with_rouge env config it s =
     seq (estimate_loss env config Val True s) (\<lambda>((val_loss, vr), s1).
     seq (estimate_loss env config Train True s1) (\<lambda>((train_loss, tr), s2).
       case (vr, tr) of
         (Some val_rouge, Some train_rouge) \<Rightarrow>
           (let s3 = log_event (PrintEvalRouge it train_loss val_loss train_rouge val_rouge) s2
            in Inr ((train_loss, val_loss),
                 s3\<lparr>train_rouges := train_rouges s3 @ [train_rouge],
                    val_rouges := val_rouges s3 @ [val_rouge]\<rparr>))
       | _ \<Rightarrow> Inl (TypeError, s2)))"

definition evaluate_without_rouge ::
  "('m, 'r) env \<Rightarrow> config \<Rightarrow> int \<Rightarrow> 'm state \<Rightarrow> ('m, (real \<times> real) \<times> 'm state) outcome" where
  "evaluate_without_rouge env config it s =
     seq (estimate_loss env config Val False s) (\<lambda>((val_loss, vr), s1).
     seq (estimate_loss env config Train False s1) (\<lambda>((train_loss, tr), s2).
       Inr ((train_loss, val_loss), log_event (PrintEval it train_loss val_loss) s2)))"

text \<open>Lines 156 to 166: the bundle and the two writes.\<close>

definition make_checkpoint :: "config \<Rightarrow> int \<Rightarrow> 'm state \<Rightarrow> 'm checkpoint" where
  "make_checkpoint config it s =
     [(''optimizer'', OptimizerState (optimizer_lrs s) (params s)),
      (''iter_num'', IntValue it),
      (''best_val_loss'', FloatValue (best_val_loss s)),
      (''config'', ConfigValue config)]"

definition save_checkpoint :: "config \<Rightarrow> int \<Rightarrow> 'm state \<Rightarrow> 'm state" where
  "save_checkpoint config it s =
     (let checkpoint = make_checkpoint config it s;
          s1 = log_event (PrintSaving (out_dir config)) s;
          s2 = log_event (SavePretrained (out_dir config) (params s1)) s1
      in log_event (TorchSave checkpoint (os_path_join (out_dir config) ''ckpt_status.pt'')) s2)"

text \<open>Lines 133 to 172. \<^verbatim>\<open>it % n\<close> raises when \<open>n\<close> is zero; \<^verbatim>\<open>batch\<close> is unbound until
  the accumulation loop has run once.\<close>

definition evaluate_and_checkpoint ::
  "('m, 'r) env \<Rightarrow> config \<Rightarrow> int \<Rightarrow> 'm state \<Rightarrow> ('m, 'm state) outcome" where
  "evaluate_and_checkpoint env config it s =
     (if eval_interval config = 0 then Inl (ZeroDivisionError, s)
      else if it mod eval_interval config = 0 then
        seq (if False then evaluate_with_rouge env config it s
             else evaluate_without_rouge env config it s) (\<lambda>((train_loss, val_loss), s1).
          let s2 = s1\<lparr>train_losses := train_losses s1 @ [train_loss]\<rparr>;
              s3 = s2\<lparr>val_losses := val_losses s2 @ [val_loss]\<rparr>
          in if val_loss < best_val_loss s3 \<or> always_save_checkpoint config then
               (let s4 = s3\<lparr>best_val_loss := val_loss\<rparr>
                in if it > 0 then Inr (save_checkpoint config it s4) else Inr s4)
             else Inr s3)
      else if log_interval config = 0 then Inl (ZeroDivisionError, s)
      else if it mod log_interval config = 0 then
        (case batch_var s of
           None \<Rightarrow> Inl (UnboundLocalError, s)
         | Some batch \<Rightarrow>
             seq (read_loss batch s) (\<lambda>lossf.
               Inr (log_event (PrintLog it lossf)
                      (s\<lparr>train_losses := train_losses s @ [lossf]\<rparr>))))
      else Inr s)"

text \<open>Lines 100 to 172: one iteration, and the loop over \<^verbatim>\<open>range(iter_num, max_iters)\<close>.\<close>

definition train_iter ::
  "('m, 'r) env \<Rightarrow> config \<Rightarrow> int \<Rightarrow> 'm state \<Rightarrow> ('m, 'm state) outcome" where
  "train_iter env config it s =
     seq (train_step env config (set_lr env it (log_event (IterBegin it) s)))
       (evaluate_and_checkpoint env config it)"

definition train_loop ::
  "('m, 'r) env \<Rightarrow> config \<Rightarrow> int \<Rightarrow> 'm state \<Rightarrow> ('m, 'm state) outcome" where
  "train_loop env config iter_num s =
     for_each (py_range iter_num (max_iters config)) (train_iter env config) s"

section \<open>The plot and main\<close>

text \<open>\<^verbatim>\<open>np.arange(0, stop, step)\<close> on integers has \<open>\<lceil>stop / step\<rceil>\<close> entries (none when
  that is negative) and raises for a zero step; \<^verbatim>\<open>ax.plot(x, y)\<close> raises when the two
  lengths differ.\<close>

definition np_arange :: "int \<Rightarrow> int \<Rightarrow> 'm state \<Rightarrow> ('m, int list) outcome" where
  "np_arange stop step s =
     (if step = 0 then Inl (ZeroDivisionError, s)
      else Inr (map (\<lambda>k. int k * step) [0 ..< nat (- ((- stop) div step))]))"

definition ax_plot :: "int list \<Rightarrow> real list \<Rightarrow> string \<Rightarrow> 'm state \<Rightarrow> ('m, 'm state) outcome" where
  "ax_plot xs ys label s =
     (if length xs \<noteq> length ys then Inl (ValueError, s) else Inr (log_event (Plot xs ys label) s))"

definition plot_curve ::
  "string \<Rightarrow> int \<Rightarrow> int \<Rightarrow> real list \<Rightarrow> string \<Rightarrow> int \<Rightarrow> real list \<Rightarrow> string \<Rightarrow> string
     \<Rightarrow> 'm state \<Rightarrow> ('m, 'm state) outcome" where
  "plot_curve title stop step1 ys1 label1 step2 ys2 label2 path s =
     (let s1 = log_event (Title title) (log_event Subplots s)
      in seq (np_arange stop step1 s1) (\<lambda>xs1.
         seq (ax_plot xs1 ys1 label1 s1) (\<lambda>s2.
         seq (np_arange stop step2 s2) (\<lambda>xs2.
         seq (ax_plot xs2 ys2 label2 s2) (\<lambda>s3.
           Inr (log_event (SaveFig path) (log_event Legend s3)))))))"

text \<open>Lines 174 to 189.\<close>

definition plot_curves :: "config \<Rightarrow> 'm state \<Rightarrow> ('m, 'm state) outcome" where
  "plot_curves config s =
     seq (plot_curve ''Supervised Fine Tuning: Loss'' (max_iters config)
            (log_interval config) (train_losses s) ''train loss''
            (eval_interval config) (val_losses s) ''valid loss''
            ''figures/train_curve.png'' s) (\<lambda>s1.
       if False then
         plot_curve ''Supervised Fine Tuning: Rouge'' (max_iters config)
           (eval_interval config) (train_rouges s1) ''train rouge''
           (eval_interval config) (val_rouges s1) ''valid rouge''
           ''figures/train_curve_rouge.png'' s1
       else Inr s1)"

text \<open>\<^verbatim>\<open>config.setdefault(key, default)\<close> on the two optional keys: the value found or
  the default, and the config with the key set.\<close>

definition setdefault_iter_num :: "config \<Rightarrow> int \<Rightarrow> int \<times> config" where
  "setdefault_iter_num config d =
     (case cfg_iter_num config of
        None \<Rightarrow> (d, config\<lparr>cfg_iter_num := Some d\<rparr>)
      | Some v \<Rightarrow> (v, config))"

definition setdefault_best_val_loss :: "config \<Rightarrow> real \<Rightarrow> real \<times> config" where
  "setdefault_best_val_loss config d =
     (case cfg_best_val_loss config of
        None \<Rightarrow> (d, config\<lparr>cfg_best_val_loss := Some d\<rparr>)
      | Some v \<Rightarrow> (v, config))"

text \<open>Lines 68 to 87: the calls that load the config and build the model, the scaler,
  the optimizer, the schedule, the estimator and the loaders.\<close>

definition startup_events :: "config \<Rightarrow> 'm event list" where
  "startup_events config =
     [LoadConfig, Setup, InitTransformer, InitScaler (init_scaler config),
      AdamW (learning_rate config), CreateLrScheduler, CreateLossEstimator,
      GetPromptDataloaders]"

text \<open>The state at line 98: one parameter group, gradients enabled, no loss recorded,
  \<^verbatim>\<open>batch\<close> unbound (\<^verbatim>\<open>next_batch\<close> is bound at line 99, before it is read).\<close>

definition initial_state :: "('m, 'r) env \<Rightarrow> config \<Rightarrow> real \<Rightarrow> 'm state" where
  "initial_state env config best =
     \<lparr>params = e_init_params env,
      model_training = e_init_training env,
      grad_enabled = True,
      optimizer_lrs = [learning_rate config],
      scaler_enabled = init_scaler config,
      heap = e_heap env,
      train_pos = 0,
      val_pos = 0,
      best_val_loss = best,
      train_losses = [],
      val_losses = [],
      train_rouges = [],
      val_rouges = [],
      next_batch = 0,
      batch_var = None,
      trace = startup_events config\<rparr>"

definition main :: "('m, 'r) env \<Rightarrow> ('m, 'm state) outcome" where
  "main env =
     (case setdefault_iter_num (e_config env) 0 of (iter_num, config1) \<Rightarrow>
      case setdefault_best_val_loss config1 1000000000 of (best, config) \<Rightarrow>
      case next_item env Train (initial_state env config best) of (nb, s1) \<Rightarrow>
        seq (train_loop env config iter_num (s1\<lparr>next_batch := nb\<rparr>)) (plot_curves config))"

section \<open>Predicates on states and call logs\<close>

fun forward_losses :: "'m event list \<Rightarrow> real list" where
  "forward_losses [] = []"
| "forward_losses (Forward a t g l # evs) = l # forward_losses evs"
| "forward_losses (ev # evs) = forward_losses evs"

definition same_locals :: "'m state \<Rightarrow> 'm state \<Rightarrow> bool" where
  "same_locals s s' \<longleftrightarrow>
     optimizer_lrs s' = optimizer_lrs s \<and> scaler_enabled s' = scaler_enabled s \<and>
     best_val_loss s' = best_val_loss s \<and> train_losses s' = train_losses s \<and>
     val_losses s' = val_losses s \<and> train_rouges s' = train_rouges s \<and>
     val_rouges s' = val_rouges s \<and> grad_enabled s' = grad_enabled s"

definition batch_ok :: "'m state \<Rightarrow> bool" where
  "batch_ok s = (case batch_var s of None \<Rightarrow> True | Some b \<Rightarrow> loss (heap s b) \<noteq> None)"

fun is_eval_fetch :: "split \<Rightarrow> 'm event \<Rightarrow> bool" where
  "is_eval_fetch sp (NextBatch sp' a) = (sp' = sp)"
| "is_eval_fetch sp (Forward a t g l) = (\<not> t \<and> \<not> g)"
| "is_eval_fetch sp ev = False"

definition stopped :: "('a \<Rightarrow> 'm state) \<Rightarrow> (error \<times> 'm state) + 'a \<Rightarrow> 'm state" where
  "stopped p r = (case r of Inl (e, s) \<Rightarrow> s | Inr a \<Rightarrow> p a)"

definition extends :: "('m event \<Rightarrow> bool) \<Rightarrow> 'm state \<Rightarrow> 'm state \<Rightarrow> bool" where
  "extends K s s' \<longleftrightarrow>
     (\<exists>evs. trace s' = trace s @ evs \<and> list_all K evs) \<and> same_locals s s' \<and>
     (batch_ok s \<longrightarrow> batch_ok s')"

definition extends_eval :: "split \<Rightarrow> 'm state \<Rightarrow> 'm state \<Rightarrow> bool" where
  "extends_eval sp s s' \<longleftrightarrow>
     (\<not> model_training s \<and> \<not> grad_enabled s \<longrightarrow>
        extends (is_eval_fetch sp) s s' \<and> \<not> model_training s')"

fun is_estimate_event :: "'m event \<Rightarrow> bool" where
  "is_estimate_event (EstimateLoss sp rr) = True"
| "is_estimate_event ModelEval = True"
| "is_estimate_event ModelTrain = True"
| "is_estimate_event (NextBatch sp a) = True"
| "is_estimate_event (Forward a t g l) = (\<not> g)"
| "is_estimate_event ev = False"

definition eval_start :: "split \<Rightarrow> bool \<Rightarrow> 'm state \<Rightarrow> 'm state" where
  "eval_start sp rr s = log_event ModelEval
      ((log_event (EstimateLoss sp rr) (s\<lparr>grad_enabled := False\<rparr>))\<lparr>model_training := False\<rparr>)"

definition eval_finish :: "'m state \<Rightarrow> 'm state \<Rightarrow> 'm state" where
  "eval_finish s t = (log_event ModelTrain (t\<lparr>model_training := True\<rparr>))\<lparr>grad_enabled := grad_enabled s\<rparr>"

definition pass_events :: "bool \<Rightarrow> bool \<Rightarrow> addr \<times> real \<times> addr \<times> real \<Rightarrow> 'm event list" where
  "pass_events t g p =
     (case p of (a, l, nb, sl) \<Rightarrow> [Forward a t g l, NextBatch Train nb, ScalerScale l, Backward sl])"

definition step_events :: "config \<Rightarrow> bool \<Rightarrow> real list \<Rightarrow> 'm event list" where
  "step_events config enabled lrs =
     (if grad_clip config \<noteq> 0 then [ScalerUnscale, ClipGradNorm (grad_clip config)] else []) @
     [ScalerStep lrs] @ (if enabled then [] else [OptimizerStep lrs]) @ [ScalerUpdate, ZeroGrad]"

definition save_events :: "config \<Rightarrow> int \<Rightarrow> real list \<Rightarrow> 'm \<Rightarrow> real \<Rightarrow> 'm event list" where
  "save_events config it lrs m v =
     [PrintSaving (out_dir config), SavePretrained (out_dir config) m,
      TorchSave [(''optimizer'', OptimizerState lrs m), (''iter_num'', IntValue it),
                 (''best_val_loss'', FloatValue v), (''config'', ConfigValue config)]
        (os_path_join (out_dir config) ''ckpt_status.pt'')]"

definition checkpoint_tail :: "config \<Rightarrow> int \<Rightarrow> 'm state \<Rightarrow> 'm event list \<Rightarrow> bool" where
  "checkpoint_tail config it s' tail \<longleftrightarrow>
     tail = [] \<or> (\<exists>l. tail = [PrintLog it l]) \<or>
     (\<exists>trl vl. tail = [PrintEval it trl vl] \<or>
        0 < it \<and>
        tail = PrintEval it trl vl # save_events config it (optimizer_lrs s') (params s') vl)"

text \<open>Lines 150 to 166, after the two estimates have returned.\<close>

definition record_and_save :: "config \<Rightarrow> int \<Rightarrow> real \<Rightarrow> real \<Rightarrow> 'm state \<Rightarrow> 'm state" where
  "record_and_save config it train_loss val_loss s1 =
     (let s2 = s1\<lparr>train_losses := train_losses s1 @ [train_loss]\<rparr>;
          s3 = s2\<lparr>val_losses := val_losses s2 @ [val_loss]\<rparr>
      in if val_loss < best_val_loss s3 \<or> always_save_checkpoint config then
           (let s4 = s3\<lparr>best_val_loss := val_loss\<rparr>
            in if it > 0 then save_checkpoint config it s4 else s4)
         else s3)"

definition iter_frame :: "'m state \<Rightarrow> 'm state \<Rightarrow> bool" where
  "iter_frame s s' \<longleftrightarrow>
     grad_enabled s' = grad_enabled s \<and> optimizer_lrs s' = optimizer_lrs s \<and>
     scaler_enabled s' = scaler_enabled s \<and> (batch_ok s \<longrightarrow> batch_ok s')"

definition iter_shape ::
  "('m, 'r) env \<Rightarrow> config \<Rightarrow> int \<Rightarrow> 'm state \<Rightarrow> 'm state \<Rightarrow> 'm event list \<Rightarrow> bool" where
  "iter_shape env config it s s' evs \<longleftrightarrow>
     (\<exists>ps est tail.
        evs = [IterBegin it, SetLr (e_lr_scheduler env it)] @
              concat (map (pass_events (model_training s) (grad_enabled s)) ps) @
              step_events config (scaler_enabled s) (optimizer_lrs s') @ est @ tail \<and>
        length ps = nat (gradient_accumulation_steps config) \<and>
        list_all is_estimate_event est \<and> checkpoint_tail config it s' tail \<and>
        (EstimateLoss Val False \<in> set est \<longleftrightarrow>
           eval_interval config \<noteq> 0 \<and> it mod eval_interval config = 0))"

section \<open>Notions the claims are stated with\<close>

text \<open>The values \<^verbatim>\<open>main\<close> enters its loop with: the first iteration, the config after
  the two \<^verbatim>\<open>setdefault\<close> calls, the first best validation loss, and the state at line 100.\<close>

definition run_iter_num :: "('m, 'r) env \<Rightarrow> int" where
  "run_iter_num env = fst (setdefault_iter_num (e_config env) 0)"

definition run_config :: "('m, 'r) env \<Rightarrow> config" where
  "run_config env =
     snd (setdefault_best_val_loss (snd (setdefault_iter_num (e_config env) 0)) 1000000000)"

definition run_best :: "('m, 'r) env \<Rightarrow> real" where
  "run_best env =
     fst (setdefault_best_val_loss (snd (setdefault_iter_num (e_config env) 0)) 1000000000)"

definition loop_entry :: "('m, 'r) env \<Rightarrow> 'm state" where
  "loop_entry env =
     (case next_item env Train (initial_state env (run_config env) (run_best env)) of
        (nb, s1) \<Rightarrow> s1\<lparr>next_batch := nb\<rparr>)"

text \<open>The calls a computation has added to the log of the state it started in.\<close>

definition new_events :: "'m state \<Rightarrow> 'm state \<Rightarrow> 'm event list" where
  "new_events s s' = drop (length (trace s)) (trace s')"

text \<open>The two writes of a checkpoint.\<close>

fun is_checkpoint_write :: "'m event \<Rightarrow> bool" where
  "is_checkpoint_write (SavePretrained d m) = True"
| "is_checkpoint_write (TorchSave ck p) = True"
| "is_checkpoint_write ev = False"

text \<open>A monitor that reads a log from its start and, at every \<^verbatim>\<open>scaler.step\<close>, records
  how many forward calls with gradients enabled and how many backward calls were made
  since the gradients were last flushed.\<close>

fun pass_monitor ::
  "nat \<times> nat \<times> (nat \<times> nat) list \<Rightarrow> 'm event \<Rightarrow> nat \<times> nat \<times> (nat \<times> nat) list" where
  "pass_monitor (f, b, acc) (Forward a t g l) = (if g then Suc f else f, b, acc)"
| "pass_monitor (f, b, acc) (Backward l) = (f, Suc b, acc)"
| "pass_monitor (f, b, acc) (ScalerStep lrs) = (f, b, acc @ [(f, b)])"
| "pass_monitor (f, b, acc) ZeroGrad = (0, 0, acc)"
| "pass_monitor (f, b, acc) ev = (f, b, acc)"

definition passes_per_step :: "'m event list \<Rightarrow> (nat \<times> nat) list" where
  "passes_per_step evs = snd (snd (foldl pass_monitor (0, 0, []) evs))"

text \<open>A monitor that follows the iteration, the learning rates of the last
  \<^verbatim>\<open>scaler.step\<close>, the validation loss last printed and the model last written, and checks
  every bundle given to \<^verbatim>\<open>torch.save\<close> against them: four entries, under the four keys,
  in this order, written to \<^verbatim>\<open>ckpt_status.pt\<close> in the output directory.\<close>

fun ckpt_monitor ::
  "config \<Rightarrow> int option \<times> real list \<times> real option \<times> 'm option \<times> bool \<Rightarrow> 'm event
     \<Rightarrow> int option \<times> real list \<times> real option \<times> 'm option \<times> bool" where
  "ckpt_monitor config (cur, lrs, val, mdl, ok) (IterBegin it) = (Some it, lrs, val, mdl, ok)"
| "ckpt_monitor config (cur, lrs, val, mdl, ok) (ScalerStep lrs') = (cur, lrs', val, mdl, ok)"
| "ckpt_monitor config (cur, lrs, val, mdl, ok) (PrintEval it trl vl) = (cur, lrs, Some vl, mdl, ok)"
| "ckpt_monitor config (cur, lrs, val, mdl, ok) (SavePretrained d m) = (cur, lrs, val, Some m, ok)"
| "ckpt_monitor config (cur, lrs, val, mdl, ok) (TorchSave ck p) =
     (cur, lrs, val, mdl,
      ok \<and> p = os_path_join (out_dir config) ''ckpt_status.pt'' \<and>
      (case (cur, val, mdl) of
         (Some it, Some v, Some m) \<Rightarrow>
           ck = [(''optimizer'', OptimizerState lrs m), (''iter_num'', IntValue it),
                 (''best_val_loss'', FloatValue v), (''config'', ConfigValue config)]
       | _ \<Rightarrow> False))"
| "ckpt_monitor config (cur, lrs, val, mdl, ok) ev = (cur, lrs, val, mdl, ok)"

definition bundles_ok :: "config \<Rightarrow> 'm event list \<Rightarrow> bool" where
  "bundles_ok config evs =
     snd (snd (snd (snd (foldl (ckpt_monitor config) (None, [], None, None, True) evs))))"

text \<open>A monitor that follows the iteration and checks, at every \<^verbatim>\<open>scaler.step\<close>, that each
  parameter group has the learning rate the schedule gives for that iteration.\<close>

fun lr_monitor :: "(int \<Rightarrow> real) \<Rightarrow> int option \<times> bool \<Rightarrow> 'm event \<Rightarrow> int option \<times> bool" where
  "lr_monitor sched (cur, ok) (IterBegin it) = (Some it, ok)"
| "lr_monitor sched (cur, ok) (ScalerStep lrs) =
     (cur, ok \<and> (case cur of None \<Rightarrow> False | Some it \<Rightarrow> list_all (\<lambda>lr. lr = sched it) lrs))"
| "lr_monitor sched (cur, ok) ev = (cur, ok)"

definition lr_set_at_every_step :: "(int \<Rightarrow> real) \<Rightarrow> 'm event list \<Rightarrow> bool" where
  "lr_set_at_every_step sched evs = snd (foldl (lr_monitor sched) (None, True) evs)"

text \<open>The kinds of calls: those of the plot, and those of evaluation and checkpointing.\<close>

fun is_plot_event :: "'m event \<Rightarrow> bool" where
  "is_plot_event Subplots = True"
| "is_plot_event (Title t) = True"
| "is_plot_event (Plot xs ys l) = True"
| "is_plot_event Legend = True"
| "is_plot_event (SaveFig p) = True"
| "is_plot_event ev = False"

fun is_evaluation_event :: "'m event \<Rightarrow> bool" where
  "is_evaluation_event (EstimateLoss sp rr) = True"
| "is_evaluation_event ModelEval = True"
| "is_evaluation_event (PrintEval it trl vl) = True"
| "is_evaluation_event (PrintEvalRouge it trl vl trr vr) = True"
| "is_evaluation_event (PrintSaving d) = True"
| "is_evaluation_event (SavePretrained d m) = True"
| "is_evaluation_event (TorchSave ck p) = True"
| "is_evaluation_event ev = False"

fun is_loop_event :: "'m event \<Rightarrow> bool" where
  "is_loop_event LoadConfig = False"
| "is_loop_event Setup = False"
| "is_loop_event InitTransformer = False"
| "is_loop_event (InitScaler b) = False"
| "is_loop_event (AdamW lr) = False"
| "is_loop_event CreateLrScheduler = False"
| "is_loop_event CreateLossEstimator = False"
| "is_loop_event GetPromptDataloaders = False"
| "is_loop_event ev = (\<not> is_plot_event ev)"




text \<open>A state without the calls to the scaler in its log.\<close>

fun is_scaler_call :: "'m event \<Rightarrow> bool" where
  "is_scaler_call (ScalerScale l) = True"
| "is_scaler_call ScalerUnscale = True"
| "is_scaler_call (ScalerStep lrs) = True"
| "is_scaler_call ScalerUpdate = True"
| "is_scaler_call ev = False"

definition erase_scaler_calls :: "'m state \<Rightarrow> 'm state" where
  "erase_scaler_calls s = s\<lparr>trace := filter (\<lambda>ev. \<not> is_scaler_call ev) (trace s)\<rparr>"

text \<open>A framework whose forward call returns something else, and does the same.\<close>

definition with_return :: "('r \<Rightarrow> 'r) \<Rightarrow> ('m, 'r) env \<Rightarrow> ('m, 'r) env" where
  "with_return f env =
     env\<lparr>e_forward := \<lambda>m t g b. case e_forward env m t g b of (m', lg, l, r) \<Rightarrow> (m', lg, l, f r)\<rparr>"

text \<open>What the plot leaves unchanged.\<close>

definition plot_frame :: "'m state \<Rightarrow> 'm state \<Rightarrow> bool" where
  "plot_frame s s' \<longleftrightarrow>
     (\<exists>evs. trace s' = trace s @ evs \<and> list_all is_plot_event evs) \<and>
     best_val_loss s' = best_val_loss s \<and> val_losses s' = val_losses s"

section \<open>A concrete run\<close>

text \<open>A small configuration and framework on which the theorems below are exercised:
  the opaque state counts the optimizer steps taken, the loss of every batch falls by
  one with each step, and the schedule is \<open>1 / (1 + it)\<close>.\<close>

definition ex_config :: config where
  "ex_config =
     \<lparr>dtype = ''bfloat16'', eval_iters = 2, learning_rate = 1 / 2, weight_decay = 0,
      beta1 = 0, beta2 = 0, max_iters = 2, gradient_accumulation_steps = 2, grad_clip = 1,
      eval_interval = 1, log_interval = 1, always_save_checkpoint = False,
      out_dir = ''out'', cfg_iter_num = None, cfg_best_val_loss = None\<rparr>"

definition ex_env :: "(nat, unit) env" where
  "ex_env =
     \<lparr>e_config = ex_config, e_init_params = 0, e_init_training = True,
      e_heap = (\<lambda>a. \<lparr>transformer_data = \<lparr>input_ids = [[a]], labels = [[a]], logits = None\<rparr>,
                      loss = None\<rparr>),
      e_train_items = (\<lambda>n. 2 * n), e_val_items = (\<lambda>n. 2 * n + 1),
      e_lr_scheduler = (\<lambda>it. 1 / (1 + real_of_int it)),
      e_forward = (\<lambda>m t g b. (m, [[[0]]], 10 - real m, ())),
      e_backward = (\<lambda>l m. m), e_clip_grad_norm = (\<lambda>c m. m),
      e_optimizer_step = (\<lambda>lrs m. Suc m), e_zero_grad = (\<lambda>m. m),
      e_scaler_scale = (\<lambda>m l. 2 * l), e_scaler_unscale = (\<lambda>m. m),
      e_scaler_step = (\<lambda>lrs m. Suc m), e_scaler_update = (\<lambda>m. m),
      e_mean = (\<lambda>xs. sum_list xs / real (length xs)),
      e_argmax = (\<lambda>lg. [[0]]), e_batch_decode = (\<lambda>ids. [''a'']),
      e_rouge_compute = (\<lambda>p l. [(''rouge1'', 1)])\<rparr>"

definition ex_state :: "nat state" where
  "ex_state = initial_state ex_env ex_config 1000000000"

text \<open>The same framework with a zero evaluation interval, and with the half-precision
  type that enables the scaler.\<close>

definition ex_env_zero_interval :: "(nat, unit) env" where
  "ex_env_zero_interval = ex_env\<lparr>e_config := ex_config\<lparr>eval_interval := 0\<rparr>\<rparr>"

section \<open>Basic facts\<close>

lemma seq_Inl [simp]: "seq (Inl e) f = Inl e"
  by (simp add: seq_def)

lemma seq_Inr [simp]: "seq (Inr a) f = f a"
  by (simp add: seq_def)

lemma seq_eq_Inr: "seq r f = Inr b \<longleftrightarrow> (\<exists>a. r = Inr a \<and> f a = Inr b)"
  by (cases r) simp_all

lemma py_range_0: "py_range 0 n = map int [0 ..< nat n]"
  by (simp add: py_range_def)

lemma forward_losses_append [simp]:
  "forward_losses (xs @ ys) = forward_losses xs @ forward_losses ys"
  by (induction xs rule: forward_losses.induct) simp_all

lemma model_call_fields:
  "trace (snd (model_call env a s)) =
     trace s @ [Forward a (model_training s) (grad_enabled s)
        (fst (snd (snd (e_forward env (params s) (model_training s) (grad_enabled s) (heap s a)))))]"
  "model_training (snd (model_call env a s)) = model_training s"
  "grad_enabled (snd (model_call env a s)) = grad_enabled s"
  "loss (heap (snd (model_call env a s)) a) =
     Some (fst (snd (snd (e_forward env (params s) (model_training s) (grad_enabled s) (heap s a)))))"
  by (simp_all add: model_call_def log_event_def write_batch_def split: prod.splits)

lemma stopped_simps [simp]: "stopped p (Inl (e, s)) = s" "stopped p (Inr a) = p a"
  by (simp_all add: stopped_def)

lemma final_simps [simp]: "final (Inl (e, s)) = s" "final (Inr s) = s"
  by (simp_all add: final_def)

text \<open>A loop keeps every relation that is reflexive, transitive and kept by its body.\<close>

lemma for_each_rel:
  assumes refl: "\<And>s. R s s"
    and trans: "\<And>s t u. R s t \<Longrightarrow> R t u \<Longrightarrow> R s u"
    and body: "\<And>x a. x \<in> set xs \<Longrightarrow> R (p a) (stopped p (body x a))"
  shows "R (p a) (stopped p (for_each xs body a))"
  using body
proof (induction xs arbitrary: a)
  case Nil
  show ?case by (simp add: refl)
next
  case (Cons x xs)
  show ?case
  proof (cases "body x a")
    case (Inl err)
    with Cons.prems [of x a] show ?thesis by (cases err) simp
  next
    case (Inr b)
    have "R (p a) (p b)" using Cons.prems [of x a] Inr by simp
    moreover have "R (p b) (stopped p (for_each xs body b))"
      by (rule Cons.IH) (simp add: Cons.prems)
    ultimately show ?thesis using Inr by (auto intro: trans)
  qed
qed

lemma extends_refl: "extends K s s"
  by (simp add: extends_def same_locals_def)

lemma extends_trans: "extends K s t \<Longrightarrow> extends K t u \<Longrightarrow> extends K s u"
  by (auto simp: extends_def same_locals_def)

lemma extends_mono: "extends K s t \<Longrightarrow> (\<And>ev. K ev \<Longrightarrow> K' ev) \<Longrightarrow> extends K' s t"
  by (auto simp: extends_def list_all_iff)

lemma extends_eval_refl: "extends_eval sp s s"
  by (simp add: extends_eval_def extends_refl)

lemma extends_eval_trans: "extends_eval sp s t \<Longrightarrow> extends_eval sp t u \<Longrightarrow> extends_eval sp s u"
  unfolding extends_eval_def
  by (metis extends_trans extends_def same_locals_def)

lemma estimate_body_stopped:
  "extends_eval sp (snd (snd st))
     (stopped (\<lambda>st. snd (snd st)) (estimate_body env sp rr k st))"
  apply (cases st; cases sp)
  apply (auto simp: estimate_body_def next_item_def model_call_def read_loss_def tensor_set_def
      compute_rouge_def extends_def same_locals_def extends_eval_def batch_ok_def
      seq_def log_event_def write_batch_def Let_def split: prod.splits if_splits option.splits sum.splits)
  done

lemma estimate_loop_stopped:
  "extends_eval sp (snd (snd st))
     (stopped (\<lambda>st. snd (snd st)) (for_each ks (estimate_body env sp rr) st))"
  by (rule for_each_rel [where R = "extends_eval sp" and p = "\<lambda>st. snd (snd st)"])
    (auto intro: extends_eval_refl extends_eval_trans estimate_body_stopped)

lemma estimate_body_Inr:
  assumes "estimate_body env sp rr k (losses, r1, s) = Inr (losses', r1', s')" and "0 \<le> k"
  shows "\<exists>a l. trace s' = trace s @ [NextBatch sp a, Forward a (model_training s) (grad_enabled s) l]
           \<and> losses' = losses[nat k := l] \<and> nat k < length losses"
  using assms
  apply (cases sp)
  apply (auto simp: estimate_body_def next_item_def model_call_def read_loss_def tensor_set_def
      seq_eq_Inr log_event_def write_batch_def Let_def split: prod.splits if_splits option.splits)
  done

lemma estimate_loop_Inr:
  assumes "for_each (map int [j ..< n]) (estimate_body env sp rr) (losses, r1, s) = Inr (losses', r1', s')"
    and "length losses = n"
  shows "\<exists>evs. trace s' = trace s @ evs \<and> length losses' = n \<and>
           take j losses' = take j losses \<and> drop j losses' = forward_losses evs"
  using assms
proof (induction "n - j" arbitrary: j losses r1 s)
  case 0
  then show ?case by simp
next
  case (Suc d)
  then have lt: "j < n" by simp
  then have range: "[j ..< n] = j # [Suc j ..< n]" by (simp add: upt_conv_Cons)
  from Suc.prems(1) obtain l1 r2 s1 where
    step: "estimate_body env sp rr (int j) (losses, r1, s) = Inr (l1, r2, s1)"
    and rest: "for_each (map int [Suc j ..< n]) (estimate_body env sp rr) (l1, r2, s1)
                 = Inr (losses', r1', s')"
    by (auto simp: range seq_eq_Inr)
  from estimate_body_Inr [OF step] obtain a l where
    tr1: "trace s1 = trace s @ [NextBatch sp a, Forward a (model_training s) (grad_enabled s) l]"
    and l1: "l1 = losses[j := l]" by auto
  have len1: "length l1 = n" using l1 Suc.prems(2) by simp
  have "d = n - Suc j" using Suc.hyps(2) by simp
  from Suc.hyps(1) [OF this rest len1] obtain evs where
    tr2: "trace s' = trace s1 @ evs" and len': "length losses' = n"
    and tk: "take (Suc j) losses' = take (Suc j) l1"
    and dr: "drop (Suc j) losses' = forward_losses evs" by auto
  have nth: "losses' ! j = l"
  proof -
    have "losses' ! j = take (Suc j) losses' ! j" by simp
    also have "\<dots> = take (Suc j) l1 ! j" by (simp only: tk)
    also have "\<dots> = l" using l1 lt Suc.prems(2) by simp
    finally show ?thesis .
  qed
  have "take j losses' = take j (take (Suc j) losses')" by (simp add: min_def)
  also have "\<dots> = take j (take (Suc j) l1)" by (simp only: tk)
  also have "\<dots> = take j losses" using l1 by (simp add: min_def)
  finally have tk': "take j losses' = take j losses" .
  have "drop j losses' = losses' ! j # drop (Suc j) losses'"
    using lt len' by (simp add: Cons_nth_drop_Suc)
  then have "drop j losses' =
      forward_losses ([NextBatch sp a, Forward a (model_training s) (grad_enabled s) l] @ evs)"
    using nth dr by simp
  then show ?case using tr1 tr2 len' tk' by auto
qed

lemma is_eval_fetch_estimate: "is_eval_fetch sp ev \<Longrightarrow> is_estimate_event ev"
  by (cases ev) simp_all

lemma estimate_body_total:
  assumes "0 \<le> k" "nat k < length losses"
  shows "\<exists>l' s'. estimate_body env sp False k (losses, r1, s) = Inr (l', r1, s') \<and>
           length l' = length losses"
  using assms
  by (cases sp)
    (auto simp: estimate_body_def next_item_def model_call_def read_loss_def tensor_set_def
      log_event_def write_batch_def Let_def split: prod.splits)

lemma estimate_loop_total:
  assumes "length losses = n"
  shows "\<exists>l' s'. for_each (map int [j ..< n]) (estimate_body env sp False) (losses, r1, s)
           = Inr (l', r1, s')"
  using assms
proof (induction "n - j" arbitrary: j losses s)
  case 0
  then show ?case by simp
next
  case (Suc d)
  then have lt: "j < n" by simp
  then have range: "[j ..< n] = j # [Suc j ..< n]" by (simp add: upt_conv_Cons)
  from estimate_body_total [of "int j" losses env sp r1 s] lt Suc.prems obtain l1 s1 where
    step: "estimate_body env sp False (int j) (losses, r1, s) = Inr (l1, r1, s1)"
    and len1: "length l1 = n" by auto
  have "d = n - Suc j" using Suc.hyps(2) by simp
  from Suc.hyps(1) [OF this len1] show ?case
    by (simp add: range step)
qed

lemma estimate_loss_total:
  assumes "0 \<le> eval_iters config"
  shows "\<exists>v s'. estimate_loss env config sp False s = Inr ((v, None), s')"
proof -
  let ?s1 = "log_event ModelEval
      ((log_event (EstimateLoss sp False) (s\<lparr>grad_enabled := False\<rparr>))\<lparr>model_training := False\<rparr>)"
  from estimate_loop_total [of "replicate (nat (eval_iters config)) 0" "nat (eval_iters config)"
      0 env sp "[]" ?s1]
  obtain l' s' where
    "for_each (map int [0 ..< nat (eval_iters config)]) (estimate_body env sp False)
       (replicate (nat (eval_iters config)) 0, [], ?s1) = Inr (l', [], s')"
    by auto
  then show ?thesis using assms
    by (simp add: estimate_loss_def no_grad_def torch_zeros_def py_range_0 Let_def)
qed

lemma estimate_loss_unfold:
  "estimate_loss env config sp rr s =
     (if eval_iters config < 0 then Inl (RuntimeError, (eval_start sp rr s)\<lparr>grad_enabled := grad_enabled s\<rparr>)
      else case for_each (map int [0 ..< nat (eval_iters config)]) (estimate_body env sp rr)
                  (replicate (nat (eval_iters config)) 0,
                   if rr then replicate (nat (eval_iters config)) 0 else [], eval_start sp rr s) of
             Inl (e, t) \<Rightarrow> Inl (e, t\<lparr>grad_enabled := grad_enabled s\<rparr>)
           | Inr (l', r', t) \<Rightarrow>
               Inr ((e_mean env l', if rr then Some (e_mean env r') else None), eval_finish s t))"
  by (cases rr)
    (simp_all add: estimate_loss_def no_grad_def torch_zeros_def Let_def py_range_0 eval_start_def
      eval_finish_def seq_def split: sum.splits prod.splits)

lemma eval_start_fields:
  "trace (eval_start sp rr s) = trace s @ [EstimateLoss sp rr, ModelEval]"
  "\<not> model_training (eval_start sp rr s)" "\<not> grad_enabled (eval_start sp rr s)"
  by (simp_all add: eval_start_def log_event_def)

lemma extends_eval_start_finish:
  assumes "extends K (eval_start sp rr s) t" "K ModelTrain" "K ModelEval" "K (EstimateLoss sp rr)"
  shows "extends K s (eval_finish s t)" "extends K s (t\<lparr>grad_enabled := grad_enabled s\<rparr>)"
    "extends K s ((eval_start sp rr s)\<lparr>grad_enabled := grad_enabled s\<rparr>)"
  using assms
  by (auto simp: extends_def same_locals_def batch_ok_def log_event_def eval_start_def
      eval_finish_def split: option.splits)

lemma estimate_loss_stopped:
  "extends is_estimate_event s (stopped snd (estimate_loss env config sp rr s))"
proof -
  let ?s1 = "eval_start sp rr s"
  let ?st = "(replicate (nat (eval_iters config)) 0,
                   if rr then replicate (nat (eval_iters config)) 0 else [], ?s1)"
  let ?r = "for_each (map int [0 ..< nat (eval_iters config)]) (estimate_body env sp rr) ?st"
  have "extends (is_eval_fetch sp) ?s1 (stopped (\<lambda>st. snd (snd st)) ?r)"
    using estimate_loop_stopped [of sp ?st _ env rr]
    by (simp add: extends_eval_def eval_start_fields)
  then have loop: "extends is_estimate_event ?s1 (stopped (\<lambda>st. snd (snd st)) ?r)"
    by (rule extends_mono) (rule is_eval_fetch_estimate)
  have start: "extends is_estimate_event ?s1 ?s1" by (rule extends_refl)
  show ?thesis
  proof (cases "eval_iters config < 0")
    case True
    then show ?thesis
      using extends_eval_start_finish(3) [OF start] by (simp add: estimate_loss_unfold)
  next
    case False
    show ?thesis
    proof (cases ?r)
      case (Inl err)
      obtain e t where err: "err = (e, t)" by (cases err)
      from loop Inl err have "extends is_estimate_event ?s1 t" by simp
      from extends_eval_start_finish(2) [OF this] show ?thesis using False Inl err
        by (simp add: estimate_loss_unfold)
    next
      case (Inr st)
      obtain l' r' t where st: "st = (l', r', t)" by (cases st)
      from loop Inr st have "extends is_estimate_event ?s1 t" by simp
      from extends_eval_start_finish(1) [OF this] show ?thesis using False Inr st
        by (simp add: estimate_loss_unfold)
    qed
  qed
qed

lemma estimate_loss_Inr:
  assumes "estimate_loss env config sp rr s = Inr ((v, ro), s')"
  shows "\<exists>mid. trace s' = trace s @ [EstimateLoss sp rr, ModelEval] @ mid @ [ModelTrain] \<and>
           list_all (is_eval_fetch sp) mid \<and>
           length (forward_losses mid) = nat (eval_iters config) \<and>
           v = e_mean env (forward_losses mid) \<and> 0 \<le> eval_iters config \<and>
           model_training s' \<and> (ro = None \<longleftrightarrow> \<not> rr)"
proof -
  let ?s1 = "eval_start sp rr s"
  let ?n = "nat (eval_iters config)"
  let ?st = "(replicate ?n (0::real), if rr then replicate ?n (0::real) else [], ?s1)"
  from assms have nonneg: "0 \<le> eval_iters config"
    by (auto simp: estimate_loss_unfold split: if_splits)
  from assms nonneg obtain l' r' t where
    loop: "for_each (map int [0 ..< ?n]) (estimate_body env sp rr) ?st = Inr (l', r', t)"
    and v: "v = e_mean env l'"
    and s': "s' = eval_finish s t"
    and ro: "ro = None \<longleftrightarrow> \<not> rr"
    by (auto simp: estimate_loss_unfold split: if_splits sum.splits prod.splits)
  from estimate_loop_Inr [OF loop] obtain mid where
    mid: "trace t = trace ?s1 @ mid" and len: "length l' = ?n" and dr: "l' = forward_losses mid"
    by auto
  from estimate_loop_stopped [of sp ?st "map int [0 ..< ?n]" env rr] loop
  have "extends (is_eval_fetch sp) ?s1 t"
    by (simp add: extends_eval_def eval_start_fields)
  with mid have fetch: "list_all (is_eval_fetch sp) mid"
    by (auto simp: extends_def)
  show ?thesis
    using mid len dr fetch v s' ro nonneg
    by (intro exI [of _ mid]) (simp add: log_event_def eval_finish_def eval_start_fields)
qed

lemma estimate_loss_stopped_head:
  "\<exists>evs. trace (stopped snd (estimate_loss env config sp rr s)) =
     trace s @ EstimateLoss sp rr # ModelEval # evs"
proof -
  let ?s1 = "eval_start sp rr s"
  let ?st = "(replicate (nat (eval_iters config)) 0,
                   if rr then replicate (nat (eval_iters config)) 0 else [], ?s1)"
  let ?r = "for_each (map int [0 ..< nat (eval_iters config)]) (estimate_body env sp rr) ?st"
  have "extends (is_eval_fetch sp) ?s1 (stopped (\<lambda>st. snd (snd st)) ?r)"
    using estimate_loop_stopped [of sp ?st _ env rr]
    by (simp add: extends_eval_def eval_start_fields)
  then obtain evs where loop: "trace (stopped (\<lambda>st. snd (snd st)) ?r) = trace ?s1 @ evs"
    by (auto simp: extends_def)
  show ?thesis
  proof (cases "eval_iters config < 0")
    case True
    then show ?thesis by (simp add: estimate_loss_unfold eval_start_fields)
  next
    case False
    show ?thesis
    proof (cases ?r)
      case (Inl err)
      obtain e t where err: "err = (e, t)" by (cases err)
      show ?thesis using False Inl err loop
        by (simp add: estimate_loss_unfold eval_start_fields)
    next
      case (Inr st)
      obtain l' r' t where st: "st = (l', r', t)" by (cases st)
      show ?thesis using False Inr st loop
        by (simp add: estimate_loss_unfold eval_start_fields eval_finish_def log_event_def)
    qed
  qed
qed

lemma accumulate_pass_Inr:
  "\<exists>s' l nb sl. accumulate_pass env s = Inr s' \<and>
     trace s' = trace s @ pass_events (model_training s) (grad_enabled s) (next_batch s, l, nb, sl) \<and>
     same_locals s s' \<and> model_training s' = model_training s \<and>
     batch_var s' = Some (next_batch s) \<and> loss (heap s' (next_batch s)) = Some l"
  by (auto simp: accumulate_pass_def next_item_def model_call_def read_loss_def scaler_scale_def
      backward_def log_event_def write_batch_def Let_def pass_events_def same_locals_def
      split: prod.splits)

lemma accumulate_loop_Inr:
  "\<exists>s' ps. for_each xs (\<lambda>_. accumulate_pass env) s = Inr s' \<and>
     trace s' = trace s @ concat (map (pass_events (model_training s) (grad_enabled s)) ps) \<and>
     length ps = length xs \<and> same_locals s s' \<and> model_training s' = model_training s \<and>
     (xs \<noteq> [] \<longrightarrow> batch_var s' \<noteq> None) \<and> (xs \<noteq> [] \<or> batch_ok s \<longrightarrow> batch_ok s')"
proof (induction xs arbitrary: s)
  case Nil
  show ?case by (simp add: same_locals_def exI [of _ "[]"])
next
  case (Cons x xs)
  from accumulate_pass_Inr [of env s] obtain s1 l nb sl where
    step: "accumulate_pass env s = Inr s1"
    and tr1: "trace s1 = trace s @ pass_events (model_training s) (grad_enabled s) (next_batch s, l, nb, sl)"
    and loc1: "same_locals s s1" and mt1: "model_training s1 = model_training s"
    and bv1: "batch_var s1 = Some (next_batch s)" and ls1: "loss (heap s1 (next_batch s)) = Some l"
    by blast
  have ok1: "batch_ok s1" using bv1 ls1 by (simp add: batch_ok_def)
  from Cons.IH [of s1] obtain s' ps where
    rest: "for_each xs (\<lambda>_. accumulate_pass env) s1 = Inr s'"
    and tr2: "trace s' = trace s1 @ concat (map (pass_events (model_training s1) (grad_enabled s1)) ps)"
    and len: "length ps = length xs" and loc2: "same_locals s1 s'"
    and mt2: "model_training s' = model_training s1"
    and bv2: "xs \<noteq> [] \<longrightarrow> batch_var s' \<noteq> None"
    and ok2: "xs \<noteq> [] \<or> batch_ok s1 \<longrightarrow> batch_ok s'"
    by blast
  have ge: "grad_enabled s1 = grad_enabled s" using loc1 by (simp add: same_locals_def)
  have bv': "batch_var s' \<noteq> None"
  proof (cases xs)
    case Nil
    with rest bv1 show ?thesis by simp
  next
    case Cons
    with bv2 show ?thesis by simp
  qed
  show ?case
    apply (rule exI [of _ s'])
    apply (rule exI [of _ "(next_batch s, l, nb, sl) # ps"])
    using step rest tr1 tr2 len loc1 loc2 mt1 mt2 ge bv' ok1 ok2
    apply (simp add: same_locals_def)
    done
qed

lemma clip_and_step_fields:
  "trace (clip_and_step env config s) =
     trace s @ step_events config (scaler_enabled s) (optimizer_lrs s)"
  "same_locals s (clip_and_step env config s)"
  "model_training (clip_and_step env config s) = model_training s"
  "batch_var (clip_and_step env config s) = batch_var s"
  "heap (clip_and_step env config s) = heap s"
  "next_batch (clip_and_step env config s) = next_batch s"
  by (simp_all add: clip_and_step_def Let_def step_events_def same_locals_def
      zero_grad_def scaler_update_def scaler_step_def optimizer_step_def clip_grad_norm_def
      scaler_unscale_def log_event_def)

lemma same_locals_trans: "same_locals s t \<Longrightarrow> same_locals t u \<Longrightarrow> same_locals s u"
  by (simp add: same_locals_def)

lemma train_step_Inr:
  "\<exists>s' ps. train_step env config s = Inr s' \<and>
     trace s' = trace s @ concat (map (pass_events (model_training s) (grad_enabled s)) ps) @
       step_events config (scaler_enabled s) (optimizer_lrs s) \<and>
     length ps = nat (gradient_accumulation_steps config) \<and>
     same_locals s s' \<and> model_training s' = model_training s \<and>
     (0 < gradient_accumulation_steps config \<longrightarrow> batch_var s' \<noteq> None) \<and>
     (0 < gradient_accumulation_steps config \<or> batch_ok s \<longrightarrow> batch_ok s')"
proof -
  let ?xs = "py_range 0 (gradient_accumulation_steps config)"
  from accumulate_loop_Inr [of ?xs env s] obtain s1 ps where
    loop: "for_each ?xs (\<lambda>_. accumulate_pass env) s = Inr s1"
    and tr: "trace s1 = trace s @ concat (map (pass_events (model_training s) (grad_enabled s)) ps)"
    and len: "length ps = length ?xs" and loc: "same_locals s s1"
    and mt: "model_training s1 = model_training s"
    and bv: "?xs \<noteq> [] \<longrightarrow> batch_var s1 \<noteq> None"
    and ok: "?xs \<noteq> [] \<or> batch_ok s \<longrightarrow> batch_ok s1"
    by blast
  have ne: "?xs \<noteq> [] \<longleftrightarrow> 0 < gradient_accumulation_steps config"
    by (auto simp: py_range_0)
  have len': "length ps = nat (gradient_accumulation_steps config)"
    using len by (simp add: py_range_0)
  let ?s' = "clip_and_step env config s1"
  have run: "train_step env config s = Inr ?s'"
    by (simp add: train_step_def loop)
  have tr': "trace ?s' = trace s @ concat (map (pass_events (model_training s) (grad_enabled s)) ps) @
       step_events config (scaler_enabled s) (optimizer_lrs s)"
    using tr loc by (simp add: clip_and_step_fields same_locals_def)
  have loc': "same_locals s ?s'"
    by (rule same_locals_trans [OF loc clip_and_step_fields(2)])
  have ok': "batch_ok ?s' = batch_ok s1"
    by (simp add: batch_ok_def clip_and_step_fields split: option.splits)
  show ?thesis
    using run tr' len' loc' mt bv ok ne ok'
    by (intro exI [of _ ?s'] exI [of _ ps]) (simp add: clip_and_step_fields)
qed

lemma extendsD:
  assumes "extends K s t"
  obtains evs where "trace t = trace s @ evs" "list_all K evs" "same_locals s t"
    "batch_ok s \<Longrightarrow> batch_ok t"
  using assms by (auto simp: extends_def)

lemma save_checkpoint_fields:
  "trace (save_checkpoint config it s) =
     trace s @ save_events config it (optimizer_lrs s) (params s) (best_val_loss s)"
  "params (save_checkpoint config it s) = params s"
  "optimizer_lrs (save_checkpoint config it s) = optimizer_lrs s"
  "grad_enabled (save_checkpoint config it s) = grad_enabled s"
  "scaler_enabled (save_checkpoint config it s) = scaler_enabled s"
  "best_val_loss (save_checkpoint config it s) = best_val_loss s"
  "val_losses (save_checkpoint config it s) = val_losses s"
  "train_losses (save_checkpoint config it s) = train_losses s"
  "batch_var (save_checkpoint config it s) = batch_var s"
  "heap (save_checkpoint config it s) = heap s"
  "model_training (save_checkpoint config it s) = model_training s"
  by (simp_all add: save_checkpoint_def make_checkpoint_def save_events_def log_event_def Let_def)

lemma evaluate_and_checkpoint_unfold:
  "evaluate_and_checkpoint env config it s =
     (if eval_interval config = 0 then Inl (ZeroDivisionError, s)
      else if it mod eval_interval config = 0 then
        (case estimate_loss env config Val False s of
           Inl err \<Rightarrow> Inl err
         | Inr (r1, s1) \<Rightarrow>
             (case estimate_loss env config Train False s1 of
                Inl err \<Rightarrow> Inl err
              | Inr (r2, s2) \<Rightarrow>
                  Inr (record_and_save config it (fst r2) (fst r1)
                         (log_event (PrintEval it (fst r2) (fst r1)) s2))))
      else if log_interval config = 0 then Inl (ZeroDivisionError, s)
      else if it mod log_interval config = 0 then
        (case batch_var s of
           None \<Rightarrow> Inl (UnboundLocalError, s)
         | Some batch \<Rightarrow>
             (case loss (heap s batch) of
                None \<Rightarrow> Inl (AttributeError, s)
              | Some lossf \<Rightarrow>
                  Inr (log_event (PrintLog it lossf)
                         (s\<lparr>train_losses := train_losses s @ [lossf]\<rparr>))))
      else Inr s)"
  by (simp add: evaluate_and_checkpoint_def evaluate_without_rouge_def record_and_save_def
      read_loss_def seq_def Let_def split: sum.splits prod.splits option.splits)

lemma record_and_save_fields:
  "trace (record_and_save config it trl vl s) =
     trace s @ (if (vl < best_val_loss s \<or> always_save_checkpoint config) \<and> 0 < it
                then save_events config it (optimizer_lrs s) (params s) vl else [])"
  "params (record_and_save config it trl vl s) = params s"
  "grad_enabled (record_and_save config it trl vl s) = grad_enabled s"
  "optimizer_lrs (record_and_save config it trl vl s) = optimizer_lrs s"
  "scaler_enabled (record_and_save config it trl vl s) = scaler_enabled s"
  "batch_var (record_and_save config it trl vl s) = batch_var s"
  "heap (record_and_save config it trl vl s) = heap s"
  "val_losses (record_and_save config it trl vl s) = val_losses s @ [vl]"
  "best_val_loss (record_and_save config it trl vl s) =
     (if vl < best_val_loss s \<or> always_save_checkpoint config then vl else best_val_loss s)"
  by (simp_all add: record_and_save_def Let_def save_checkpoint_fields)

lemma log_event_fields:
  "trace (log_event ev s) = trace s @ [ev]"
  "params (log_event ev s) = params s"
  "grad_enabled (log_event ev s) = grad_enabled s"
  "optimizer_lrs (log_event ev s) = optimizer_lrs s"
  "scaler_enabled (log_event ev s) = scaler_enabled s"
  "batch_var (log_event ev s) = batch_var s"
  "heap (log_event ev s) = heap s"
  "val_losses (log_event ev s) = val_losses s"
  "best_val_loss (log_event ev s) = best_val_loss s"
  "model_training (log_event ev s) = model_training s"
  by (simp_all add: log_event_def)

lemma record_and_save_tail:
  fixes s2 :: "'m state" and config :: config and it :: int and trl vl :: real
  defines "t \<equiv> record_and_save config it trl vl (log_event (PrintEval it trl vl) s2)"
  shows "\<exists>tail. trace t = trace s2 @ tail \<and> checkpoint_tail config it t tail"
    and "iter_frame s2 t"
proof -
  show "iter_frame s2 t"
    by (simp add: t_def iter_frame_def batch_ok_def record_and_save_fields log_event_fields
        split: option.splits)
  show "\<exists>tail. trace t = trace s2 @ tail \<and> checkpoint_tail config it t tail"
  proof (cases "(vl < best_val_loss s2 \<or> always_save_checkpoint config) \<and> 0 < it")
    case True
    then have "trace t = trace s2 @ PrintEval it trl vl #
        save_events config it (optimizer_lrs t) (params t) vl"
      by (simp add: t_def record_and_save_fields log_event_fields)
    moreover have "checkpoint_tail config it t
        (PrintEval it trl vl # save_events config it (optimizer_lrs t) (params t) vl)"
      unfolding checkpoint_tail_def using True by blast
    ultimately show ?thesis by blast
  next
    case False
    then have "trace t = trace s2 @ [PrintEval it trl vl]"
      by (auto simp: t_def record_and_save_fields log_event_fields)
    moreover have "checkpoint_tail config it t [PrintEval it trl vl]"
      unfolding checkpoint_tail_def by blast
    ultimately show ?thesis by blast
  qed
qed

lemma iter_frame_refl: "iter_frame s s"
  by (simp add: iter_frame_def)

lemma iter_frame_trans: "iter_frame s t \<Longrightarrow> iter_frame t u \<Longrightarrow> iter_frame s u"
  by (simp add: iter_frame_def)

lemma extends_iter_frame: "extends K s t \<Longrightarrow> iter_frame s t"
  by (simp add: extends_def same_locals_def iter_frame_def)

lemma checkpoint_tail_Nil: "checkpoint_tail config it s' []"
  by (simp add: checkpoint_tail_def)

lemma evaluate_stopped:
  fixes s :: "'m state" and env :: "('m, 'r) env" and config :: config and it :: int
  defines "s' \<equiv> final (evaluate_and_checkpoint env config it s)"
  shows "\<exists>est tail. trace s' = trace s @ est @ tail \<and> list_all is_estimate_event est \<and>
           checkpoint_tail config it s' tail \<and>
           (EstimateLoss Val False \<in> set est \<longleftrightarrow>
              eval_interval config \<noteq> 0 \<and> it mod eval_interval config = 0)"
    and "iter_frame s s'"
proof -
  have "(\<exists>est tail. trace s' = trace s @ est @ tail \<and> list_all is_estimate_event est \<and>
           checkpoint_tail config it s' tail \<and>
           (EstimateLoss Val False \<in> set est \<longleftrightarrow>
              eval_interval config \<noteq> 0 \<and> it mod eval_interval config = 0)) \<and> iter_frame s s'"
  proof (cases "eval_interval config \<noteq> 0 \<and> it mod eval_interval config = 0")
    case False
    have "\<exists>tail. trace s' = trace s @ tail \<and> (tail = [] \<or> (\<exists>l. tail = [PrintLog it l])) \<and>
            iter_frame s s'"
      unfolding s'_def evaluate_and_checkpoint_unfold using False
      by (auto simp: iter_frame_def log_event_def batch_ok_def split: option.splits)
    then obtain tail where tr: "trace s' = trace s @ tail"
      and tl: "tail = [] \<or> (\<exists>l. tail = [PrintLog it l])" and fr: "iter_frame s s'" by blast
    have ct: "checkpoint_tail config it s' tail"
      using tl unfolding checkpoint_tail_def by blast
    have "trace s' = trace s @ [] @ tail \<and> list_all is_estimate_event [] \<and>
        checkpoint_tail config it s' tail \<and>
        (EstimateLoss Val False \<in> set [] \<longleftrightarrow>
           eval_interval config \<noteq> 0 \<and> it mod eval_interval config = 0)"
      using tr ct False by simp
    then show ?thesis
      apply (intro conjI)
       apply (rule exI [of _ "[]"])
       apply (rule exI [of _ tail])
       apply assumption
      apply (rule fr)
      done
  next
    case True
    note ev = True
    from estimate_loss_stopped [of s env config Val False]
    have e1: "extends is_estimate_event s (stopped snd (estimate_loss env config Val False s))" .
    from estimate_loss_stopped_head [of env config Val False s] obtain hd_evs where
      h1: "trace (stopped snd (estimate_loss env config Val False s)) =
             trace s @ EstimateLoss Val False # ModelEval # hd_evs" by blast
    show ?thesis
    proof (cases "estimate_loss env config Val False s")
      case (Inl err)
      obtain e t where err: "err = (e, t)" by (cases err)
      have s': "s' = t" using ev Inl err by (simp add: s'_def evaluate_and_checkpoint_unfold)
      from e1 Inl err have ext: "extends is_estimate_event s t" by simp
      from ext obtain evs where evs: "trace t = trace s @ evs" "list_all is_estimate_event evs"
        by (rule extendsD)
      from h1 Inl err evs(1) have "EstimateLoss Val False \<in> set evs" by simp
      then show ?thesis using evs s' extends_iter_frame [OF ext] checkpoint_tail_Nil ev
        by (intro conjI exI [of _ evs] exI [of _ "[]"]) simp_all
    next
      case (Inr res1)
      obtain r1 s1 where res1: "res1 = (r1, s1)" by (cases res1)
      from e1 Inr res1 have ext1: "extends is_estimate_event s s1" by simp
      from h1 Inr res1 have h1': "trace s1 = trace s @ EstimateLoss Val False # ModelEval # hd_evs"
        by simp
      from estimate_loss_stopped [of s1 env config Train False]
      have e2: "extends is_estimate_event s1 (stopped snd (estimate_loss env config Train False s1))" .
      show ?thesis
      proof (cases "estimate_loss env config Train False s1")
        case (Inl err)
        obtain e t where err: "err = (e, t)" by (cases err)
        have s': "s' = t" using ev Inr res1 Inl err
          by (simp add: s'_def evaluate_and_checkpoint_unfold)
        from e2 Inl err have ext2: "extends is_estimate_event s1 t" by simp
        with ext1 have ext: "extends is_estimate_event s t" by (rule extends_trans)
        from ext obtain evs where evs: "trace t = trace s @ evs" "list_all is_estimate_event evs"
          by (rule extendsD)
        from ext2 obtain evs2 where "trace t = trace s1 @ evs2" by (rule extendsD)
        with h1' evs(1) have "EstimateLoss Val False \<in> set evs" by auto
        then show ?thesis using evs s' extends_iter_frame [OF ext] checkpoint_tail_Nil ev
          by (intro conjI exI [of _ evs] exI [of _ "[]"]) simp_all
      next
        case inr2: (Inr res2)
        obtain r2 s2 where res2: "res2 = (r2, s2)" by (cases res2)
        from e2 inr2 res2 have ext2: "extends is_estimate_event s1 s2" by simp
        with ext1 have ext: "extends is_estimate_event s s2" by (rule extends_trans)
        from ext obtain evs where tr: "trace s2 = trace s @ evs"
          and est: "list_all is_estimate_event evs" by (rule extendsD)
        from ext2 obtain evs2 where "trace s2 = trace s1 @ evs2" by (rule extendsD)
        with h1' tr have mem: "EstimateLoss Val False \<in> set evs" by auto
        let ?t = "record_and_save config it (fst r2) (fst r1)
                    (log_event (PrintEval it (fst r2) (fst r1)) s2)"
        have s': "s' = ?t" using ev Inr res1 inr2 res2
          by (simp add: s'_def evaluate_and_checkpoint_unfold)
        from record_and_save_tail(1) [of config it "fst r2" "fst r1" s2]
        obtain tail where tl: "trace ?t = trace s2 @ tail" and ct: "checkpoint_tail config it ?t tail"
          by blast
        have fr: "iter_frame s2 ?t"
          by (rule record_and_save_tail(2))
        have "iter_frame s ?t"
          by (rule iter_frame_trans [OF extends_iter_frame [OF ext] fr])
        then show ?thesis using s' tr est tl ct mem ev
          by (intro conjI exI [of _ evs] exI [of _ tail]) simp_all
      qed
    qed
  qed
  then show "\<exists>est tail. trace s' = trace s @ est @ tail \<and> list_all is_estimate_event est \<and>
           checkpoint_tail config it s' tail \<and>
           (EstimateLoss Val False \<in> set est \<longleftrightarrow>
              eval_interval config \<noteq> 0 \<and> it mod eval_interval config = 0)"
    and "iter_frame s s'" by blast+
qed

lemma set_lr_fields:
  "trace (set_lr env it (log_event (IterBegin it) s)) =
     trace s @ [IterBegin it, SetLr (e_lr_scheduler env it)]"
  "optimizer_lrs (set_lr env it (log_event ev s)) =
     map (\<lambda>param_group. e_lr_scheduler env it) (optimizer_lrs s)"
  "grad_enabled (set_lr env it (log_event ev s)) = grad_enabled s"
  "scaler_enabled (set_lr env it (log_event ev s)) = scaler_enabled s"
  "model_training (set_lr env it (log_event ev s)) = model_training s"
  "batch_ok (set_lr env it (log_event ev s)) = batch_ok s"
  "best_val_loss (set_lr env it (log_event ev s)) = best_val_loss s"
  "val_losses (set_lr env it (log_event ev s)) = val_losses s"
  by (simp_all add: set_lr_def log_event_def Let_def batch_ok_def split: option.splits)

lemma train_iter_stopped:
  fixes s :: "'m state" and env :: "('m, 'r) env" and config :: config and it :: int
  defines "s' \<equiv> final (train_iter env config it s)"
  shows "\<exists>evs. trace s' = trace s @ evs \<and> iter_shape env config it s s' evs"
    and "grad_enabled s' = grad_enabled s"
    and "scaler_enabled s' = scaler_enabled s"
    and "optimizer_lrs s' = map (\<lambda>param_group. e_lr_scheduler env it) (optimizer_lrs s)"
proof -
  let ?s0 = "set_lr env it (log_event (IterBegin it) s)"
  from train_step_Inr [of env config ?s0] obtain s1 ps where
    run: "train_step env config ?s0 = Inr s1"
    and tr1: "trace s1 = trace ?s0 @
        concat (map (pass_events (model_training ?s0) (grad_enabled ?s0)) ps) @
        step_events config (scaler_enabled ?s0) (optimizer_lrs ?s0)"
    and len: "length ps = nat (gradient_accumulation_steps config)"
    and loc: "same_locals ?s0 s1"
    by blast
  have s': "s' = final (evaluate_and_checkpoint env config it s1)"
    by (simp add: s'_def train_iter_def run)
  note es = evaluate_stopped [where s = s1 and env = env and config = config and it = it, folded s']
  from es(1) obtain est tail where
    tr2: "trace s' = trace s1 @ est @ tail" and est: "list_all is_estimate_event est"
    and ct: "checkpoint_tail config it s' tail"
    and mem: "EstimateLoss Val False \<in> set est \<longleftrightarrow>
                eval_interval config \<noteq> 0 \<and> it mod eval_interval config = 0"
    by (elim exE conjE) (rule that; assumption)
  have fr: "iter_frame s1 s'"
    by (rule es(2))
  have lrs: "optimizer_lrs s' = map (\<lambda>param_group. e_lr_scheduler env it) (optimizer_lrs s)"
    using fr loc by (simp add: iter_frame_def same_locals_def set_lr_fields)
  show "optimizer_lrs s' = map (\<lambda>param_group. e_lr_scheduler env it) (optimizer_lrs s)"
    by (rule lrs)
  show "grad_enabled s' = grad_enabled s"
    using fr loc by (simp add: iter_frame_def same_locals_def set_lr_fields)
  show "scaler_enabled s' = scaler_enabled s"
    using fr loc by (simp add: iter_frame_def same_locals_def set_lr_fields)
  have sh: "iter_shape env config it s s'
      ([IterBegin it, SetLr (e_lr_scheduler env it)] @
       concat (map (pass_events (model_training s) (grad_enabled s)) ps) @
       step_events config (scaler_enabled s) (optimizer_lrs s') @ est @ tail)"
    unfolding iter_shape_def
    apply (rule exI [of _ ps])
    apply (rule exI [of _ est])
    apply (rule exI [of _ tail])
    apply (simp add: len est ct mem)
    done
  have tr: "trace s' = trace s @
       ([IterBegin it, SetLr (e_lr_scheduler env it)] @
       concat (map (pass_events (model_training s) (grad_enabled s)) ps) @
       step_events config (scaler_enabled s) (optimizer_lrs s') @ est @ tail)"
    using tr1 tr2 lrs by (simp add: set_lr_fields)
  show "\<exists>evs. trace s' = trace s @ evs \<and> iter_shape env config it s s' evs"
    using tr sh by - (rule exI, rule conjI, assumption+)
qed

lemma evaluate_total:
  assumes "eval_interval config \<noteq> 0" "log_interval config \<noteq> 0" "0 \<le> eval_iters config"
    "batch_var s \<noteq> None" "batch_ok s"
  shows "\<exists>s'. evaluate_and_checkpoint env config it s = Inr s'"
proof (cases "it mod eval_interval config = 0")
  case True
  from estimate_loss_total [OF assms(3), where env = env and sp = Val and s = s] obtain v1 s1 where
    r1: "estimate_loss env config Val False s = Inr ((v1, None), s1)" by blast
  from estimate_loss_total [OF assms(3), where env = env and sp = Train and s = s1] obtain v2 s2 where
    r2: "estimate_loss env config Train False s1 = Inr ((v2, None), s2)" by blast
  show ?thesis using True assms(1) r1 r2 by (simp add: evaluate_and_checkpoint_unfold)
next
  case False
  then show ?thesis using assms
    by (auto simp: evaluate_and_checkpoint_unfold batch_ok_def split: option.splits)
qed

lemma train_iter_total:
  assumes "eval_interval config \<noteq> 0" "log_interval config \<noteq> 0" "0 \<le> eval_iters config"
    "0 < gradient_accumulation_steps config"
  shows "\<exists>s'. train_iter env config it s = Inr s'"
proof -
  let ?s0 = "set_lr env it (log_event (IterBegin it) s)"
  from train_step_Inr [of env config ?s0] assms(4) obtain s1 where
    run: "train_step env config ?s0 = Inr s1" and "batch_var s1 \<noteq> None" "batch_ok s1"
    by blast
  from evaluate_total [OF assms(1-3) this(2,3), where env = env and it = it] run show ?thesis
    by (simp add: train_iter_def)
qed

lemma for_each_total:
  assumes "\<And>x s. \<exists>s'. body x s = Inr s'"
  shows "\<exists>s'. for_each xs body s = Inr s'"
proof (induction xs arbitrary: s)
  case Nil
  show ?case by simp
next
  case (Cons x xs)
  from assms [of x s] obtain s1 where "body x s = Inr s1" by blast
  with Cons.IH [of s1] show ?case by simp
qed

lemma train_loop_total:
  assumes "eval_interval config \<noteq> 0" "log_interval config \<noteq> 0" "0 \<le> eval_iters config"
    "0 < gradient_accumulation_steps config"
  shows "\<exists>s'. train_loop env config iter_num s = Inr s'"
  unfolding train_loop_def
  by (rule for_each_total) (rule train_iter_total [OF assms])

section \<open>Facts about main\<close>

lemma final_stopped: "final r = stopped (\<lambda>s. s) r"
  by (simp add: final_def stopped_def)

lemma final_seq:
  "final (seq r f) = (case r of Inl (e, t) \<Rightarrow> t | Inr s \<Rightarrow> final (f s))"
  by (cases r) (auto simp: final_def)

lemma main_unfold:
  "main env =
     seq (train_loop env (run_config env) (run_iter_num env) (loop_entry env))
       (plot_curves (run_config env))"
  by (simp add: main_def run_config_def run_iter_num_def run_best_def loop_entry_def
      split: prod.splits)

lemma run_config_fields:
  "always_save_checkpoint (run_config env) = always_save_checkpoint (e_config env)"
  "eval_interval (run_config env) = eval_interval (e_config env)"
  "log_interval (run_config env) = log_interval (e_config env)"
  "eval_iters (run_config env) = eval_iters (e_config env)"
  "max_iters (run_config env) = max_iters (e_config env)"
  "gradient_accumulation_steps (run_config env) = gradient_accumulation_steps (e_config env)"
  "dtype (run_config env) = dtype (e_config env)"
  "out_dir (run_config env) = out_dir (e_config env)"
  by (simp_all add: run_config_def setdefault_best_val_loss_def setdefault_iter_num_def
      split: option.splits)

lemma loop_entry_fields:
  "trace (loop_entry env) =
     startup_events (run_config env) @ [NextBatch Train (e_train_items env 0)]"
  "best_val_loss (loop_entry env) = run_best env"
  "val_losses (loop_entry env) = []"
  "grad_enabled (loop_entry env)"
  "scaler_enabled (loop_entry env) = init_scaler (run_config env)"
  "optimizer_lrs (loop_entry env) = [learning_rate (run_config env)]"
  "batch_var (loop_entry env) = None"
  by (simp_all add: loop_entry_def next_item_def initial_state_def log_event_def Let_def)

lemma np_arange_cases:
  "np_arange stop step s = Inl (ZeroDivisionError, s) \<or> (\<exists>xs. np_arange stop step s = Inr xs)"
  by (simp add: np_arange_def)

lemma ax_plot_cases:
  "ax_plot xs ys label s = Inl (ValueError, s) \<or>
   ax_plot xs ys label s = Inr (log_event (Plot xs ys label) s)"
  by (simp add: ax_plot_def)

lemma plot_frame_refl: "plot_frame s s"
  by (simp add: plot_frame_def)

lemma plot_frame_log:
  "is_plot_event ev \<Longrightarrow> plot_frame s t \<Longrightarrow> plot_frame s (log_event ev t)"
  by (auto simp: plot_frame_def log_event_def)

lemma plot_curve_stopped:
  "plot_frame s (final (plot_curve title stop step1 ys1 label1 step2 ys2 label2 path s))"
proof -
  let ?s1 = "log_event (Title title) (log_event Subplots s)"
  have f1: "plot_frame s ?s1"
    by (intro plot_frame_log plot_frame_refl) simp_all
  show ?thesis
  proof (cases "np_arange stop step1 ?s1")
    case (Inl err)
    with np_arange_cases [of stop step1 ?s1] f1 show ?thesis
      by (auto simp: plot_curve_def Let_def)
  next
    case (Inr xs1)
    note a1 = Inr
    from ax_plot_cases [of xs1 ys1 label1 ?s1] show ?thesis
    proof
      assume "ax_plot xs1 ys1 label1 ?s1 = Inl (ValueError, ?s1)"
      with a1 f1 show ?thesis by (simp add: plot_curve_def Let_def)
    next
      let ?s2 = "log_event (Plot xs1 ys1 label1) ?s1"
      assume p1: "ax_plot xs1 ys1 label1 ?s1 = Inr ?s2"
      have f2: "plot_frame s ?s2"
        by (intro plot_frame_log f1) simp
      show ?thesis
      proof (cases "np_arange stop step2 ?s2")
        case (Inl err)
        with np_arange_cases [of stop step2 ?s2] a1 p1 f2 show ?thesis
          by (auto simp: plot_curve_def Let_def)
      next
        case (Inr xs2)
        note a2 = Inr
        from ax_plot_cases [of xs2 ys2 label2 ?s2] show ?thesis
        proof
          assume "ax_plot xs2 ys2 label2 ?s2 = Inl (ValueError, ?s2)"
          with a1 p1 a2 f2 show ?thesis by (simp add: plot_curve_def Let_def)
        next
          let ?s3 = "log_event (Plot xs2 ys2 label2) ?s2"
          assume p2: "ax_plot xs2 ys2 label2 ?s2 = Inr ?s3"
          have "plot_frame s (log_event (SaveFig path) (log_event Legend ?s3))"
            by (intro plot_frame_log f2) simp_all
          with a1 p1 a2 p2 show ?thesis by (simp add: plot_curve_def Let_def)
        qed
      qed
    qed
  qed
qed

lemma plot_curves_stopped: "plot_frame s (final (plot_curves config s))"
  using plot_curve_stopped [of s "''Supervised Fine Tuning: Loss''" "max_iters config"
      "log_interval config" "train_losses s" "''train loss''" "eval_interval config"
      "val_losses s" "''valid loss''" "''figures/train_curve.png''"]
  by (cases "plot_curve ''Supervised Fine Tuning: Loss'' (max_iters config)
            (log_interval config) (train_losses s) ''train loss''
            (eval_interval config) (val_losses s) ''valid loss''
            ''figures/train_curve.png'' s")
    (auto simp: plot_curves_def final_def)

lemma main_final_cases:
  "(\<exists>e. train_loop env (run_config env) (run_iter_num env) (loop_entry env)
           = Inl (e, final (main env))) \<or>
   (\<exists>s. train_loop env (run_config env) (run_iter_num env) (loop_entry env) = Inr s \<and>
        plot_frame s (final (main env)))"
proof (cases "train_loop env (run_config env) (run_iter_num env) (loop_entry env)")
  case (Inl err)
  then show ?thesis by (cases err) (simp add: main_unfold)
next
  case (Inr s)
  then show ?thesis using plot_curves_stopped [of s "run_config env"]
    by (simp add: main_unfold)
qed

section \<open>C8: the scaler is enabled for float16 only, and is a pass-through otherwise\<close>

lemma erase_scaler_calls_fields:
  "trace (erase_scaler_calls s) = filter (\<lambda>ev. \<not> is_scaler_call ev) (trace s)"
  "params (erase_scaler_calls s) = params s"
  "scaler_enabled (erase_scaler_calls s) = scaler_enabled s"
  "optimizer_lrs (erase_scaler_calls s) = optimizer_lrs s"
  "next_batch (erase_scaler_calls s) = next_batch s"
  by (simp_all add: erase_scaler_calls_def)








section \<open>C1: an improved validation loss is checkpointed, after iteration 0\<close>

lemma estimate_loss_same_locals:
  assumes "estimate_loss env config sp rr s = Inr (r, s1)"
  shows "same_locals s s1"
    and "\<exists>evs. trace s1 = trace s @ evs \<and> list_all is_estimate_event evs"
  using estimate_loss_stopped [of s env config sp rr] assms
  by (simp_all add: extends_def)

lemma save_events_make_checkpoint:
  "save_events config it (optimizer_lrs s) (params s) (best_val_loss s) =
     [PrintSaving (out_dir config), SavePretrained (out_dir config) (params s),
      TorchSave (make_checkpoint config it s) (os_path_join (out_dir config) ''ckpt_status.pt'')]"
  by (simp add: save_events_def make_checkpoint_def)

lemma is_estimate_event_not_write: "is_estimate_event ev \<Longrightarrow> \<not> is_checkpoint_write ev"
  by (cases ev) simp_all

lemma filter_writes_estimate:
  "list_all is_estimate_event evs \<Longrightarrow> filter is_checkpoint_write evs = []"
  by (induction evs) (auto dest: is_estimate_event_not_write)

lemma no_checkpoint_before_iteration_one:
  assumes "it \<le> 0"
  shows "filter is_checkpoint_write (trace (final (evaluate_and_checkpoint env config it s))) =
           filter is_checkpoint_write (trace s)"
proof -
  let ?s' = "final (evaluate_and_checkpoint env config it s)"
  from evaluate_stopped(1) [of env config it s] obtain est tail where
    tr: "trace ?s' = trace s @ est @ tail" and est: "list_all is_estimate_event est"
    and ct: "checkpoint_tail config it ?s' tail"
    by (elim exE conjE)
  from ct assms have "filter is_checkpoint_write tail = []"
    by (auto simp: checkpoint_tail_def)
  then show ?thesis using tr filter_writes_estimate [OF est] by simp
qed

lemma ex_val_estimate:
  "\<not> isl (estimate_loss ex_env ex_config Val False ex_state)"
  "fst (fst (projr (estimate_loss ex_env ex_config Val False ex_state))) = 10"
  by code_simp+

text \<open>
  C1, as the code has it. At an iteration \<open>it > 0\<close> at which the evaluation runs, if the
  estimate on the validation loader returns a loss strictly below the best validation
  loss so far, then the iteration ends normally, that loss is the new best validation loss,
  and the last three calls of the iteration are the message, \<^verbatim>\<open>save_pretrained\<close> on the
  model and \<^verbatim>\<open>torch.save\<close> of the bundle to \<^verbatim>\<open>ckpt_status.pt\<close>.
\<close>

theorem improvement_is_checkpointed:
  assumes "0 < it" and "eval_interval config \<noteq> 0" and "it mod eval_interval config = 0"
    and "estimate_loss env config Val False s = Inr ((val_loss, ro), s1)"
    and "val_loss < best_val_loss s"
  shows "\<exists>s' pre. evaluate_and_checkpoint env config it s = Inr s' \<and>
           best_val_loss s' = val_loss \<and>
           trace s' = trace s @ pre @
             [PrintSaving (out_dir config), SavePretrained (out_dir config) (params s'),
              TorchSave (make_checkpoint config it s')
                (os_path_join (out_dir config) ''ckpt_status.pt'')]"
proof -
  from estimate_loss_Inr [OF assms(4)] have nonneg: "0 \<le> eval_iters config" by blast
  from estimate_loss_same_locals [OF assms(4)] obtain evs1 where
    loc1: "same_locals s s1" and tr1: "trace s1 = trace s @ evs1" by blast
  from estimate_loss_total [OF nonneg, where env = env and sp = Train and s = s1]
  obtain train_loss s2 where
    r2: "estimate_loss env config Train False s1 = Inr ((train_loss, None), s2)" by blast
  from estimate_loss_same_locals [OF r2] obtain evs2 where
    loc2: "same_locals s1 s2" and tr2: "trace s2 = trace s1 @ evs2" by blast
  let ?s3 = "log_event (PrintEval it train_loss val_loss) s2"
  let ?s' = "record_and_save config it train_loss val_loss ?s3"
  have best: "best_val_loss s2 = best_val_loss s"
    using loc1 loc2 by (simp add: same_locals_def)
  have run: "evaluate_and_checkpoint env config it s = Inr ?s'"
    using assms(2,3,4) r2 by (simp add: evaluate_and_checkpoint_unfold)
  have b': "best_val_loss ?s' = val_loss"
    using assms(5) best by (simp add: record_and_save_fields log_event_fields)
  have "trace ?s' = trace ?s3 @ save_events config it (optimizer_lrs ?s') (params ?s') (best_val_loss ?s')"
    using assms(1,5) best by (simp add: record_and_save_fields log_event_fields)
  then have "trace ?s' = trace s @ (evs1 @ evs2 @ [PrintEval it train_loss val_loss]) @
      [PrintSaving (out_dir config), SavePretrained (out_dir config) (params ?s'),
       TorchSave (make_checkpoint config it ?s') (os_path_join (out_dir config) ''ckpt_status.pt'')]"
    using tr1 tr2 by (simp add: save_events_make_checkpoint log_event_fields)
  with run b' show ?thesis
    by - (rule exI, rule exI, (rule conjI, assumption)+, assumption)
qed

theorem improvement_is_checkpointed_witness:
  "\<exists>s' pre. evaluate_and_checkpoint ex_env ex_config 1 ex_state = Inr s' \<and>
     best_val_loss s' = 10 \<and>
     trace s' = trace ex_state @ pre @
       [PrintSaving (out_dir ex_config), SavePretrained (out_dir ex_config) (params s'),
        TorchSave (make_checkpoint ex_config 1 s')
          (os_path_join (out_dir ex_config) ''ckpt_status.pt'')]"
proof -
  from ex_val_estimate obtain ro s1 where
    run: "estimate_loss ex_env ex_config Val False ex_state = Inr ((10, ro), s1)"
    by (cases "estimate_loss ex_env ex_config Val False ex_state") auto
  have below: "10 < best_val_loss ex_state"
    by (simp add: ex_state_def initial_state_def)
  have it: "(0::int) < 1" "eval_interval ex_config \<noteq> 0" "1 mod eval_interval ex_config = 0"
    by (simp_all add: ex_config_def)
  from improvement_is_checkpointed [OF it run below] show ?thesis .
qed

text \<open>At iteration 0 the claim as it was written fails: the estimate on the validation
  loader returns 10, below the best validation loss of one billion, and the iteration
  writes nothing.\<close>

theorem improvement_at_iteration_zero_not_checkpointed:
  "eval_interval ex_config \<noteq> 0 \<and> 0 mod eval_interval ex_config = 0 \<and>
   \<not> isl (estimate_loss ex_env ex_config Val False ex_state) \<and>
   fst (fst (projr (estimate_loss ex_env ex_config Val False ex_state))) = 10 \<and>
   10 < best_val_loss ex_state \<and>
   filter is_checkpoint_write (trace (final (evaluate_and_checkpoint ex_env ex_config 0 ex_state)))
     = []"
proof -
  note ex_val_estimate
  moreover have "10 < best_val_loss ex_state"
    by (simp add: ex_state_def initial_state_def)
  moreover have "filter is_checkpoint_write (trace ex_state) = []"
    by (simp add: ex_state_def initial_state_def startup_events_def)
  then have "filter is_checkpoint_write
      (trace (final (evaluate_and_checkpoint ex_env ex_config 0 ex_state))) = []"
    by (simp add: no_checkpoint_before_iteration_one)
  moreover have "eval_interval ex_config \<noteq> 0 \<and> 0 mod eval_interval ex_config = 0"
    by (simp add: ex_config_def)
  ultimately show ?thesis by simp
qed

section \<open>C10: estimate_loss leaves the model in training mode\<close>

text \<open>
  C10. Whenever \<^verbatim>\<open>estimate_loss\<close> returns, with or without ROUGE, the model is in
  training mode: the calls it has added to the log are the entry into the function, then
  \<^verbatim>\<open>model.eval()\<close>, then only fetches from the given loader and forward calls made in
  evaluation mode with gradients disabled, and last \<^verbatim>\<open>model.train()\<close>.
\<close>

theorem estimate_loss_leaves_training_mode:
  assumes "estimate_loss env config dataloader return_rouge s = Inr (r, s')"
  shows "model_training s' \<and>
         (\<exists>mid. trace s' =
                  trace s @ [EstimateLoss dataloader return_rouge, ModelEval] @ mid @ [ModelTrain] \<and>
                list_all (is_eval_fetch dataloader) mid)"
proof -
  obtain v ro where r: "r = (v, ro)" by (cases r)
  from estimate_loss_Inr [OF assms [unfolded r]] show ?thesis by blast
qed

theorem estimate_loss_leaves_training_mode_witness:
  "\<exists>r s'. estimate_loss ex_env ex_config Val True ex_state = Inr (r, s') \<and>
     model_training s' \<and>
     (\<exists>mid. trace s' = trace ex_state @ [EstimateLoss Val True, ModelEval] @ mid @ [ModelTrain] \<and>
            list_all (is_eval_fetch Val) mid)"
proof -
  have "\<not> isl (estimate_loss ex_env ex_config Val True ex_state)"
    by code_simp
  then obtain r s' where run: "estimate_loss ex_env ex_config Val True ex_state = Inr (r, s')"
    by (cases "estimate_loss ex_env ex_config Val True ex_state") auto
  from estimate_loss_leaves_training_mode [OF run] run show ?thesis by blast
qed

end
